theory Spec2Isabelle
  imports Complex_Main
begin

section \<open>The energy log of harbour-batterylog (qml/energylog.js)\<close>

text \<open>
  The module keeps one SQL table, \<^verbatim>\<open>energy_log(time PRIMARY KEY, energy, charging, active,
  event)\<close>, and five script variables holding the sample written last. The embedding below
  follows the script function by function.

  \<^item> A JavaScript \<^verbatim>\<open>Date\<close> is its number of milliseconds since the epoch, an \<open>int\<close>.
  \<^item> The energy of a row is a rational (\<open>rat\<close>). The interpolation of \<^verbatim>\<open>getLatestEntries\<close>
    is computed exactly, without the rounding of doubles; \<^verbatim>\<open>getAveragePower\<close>, whose result
    is an integer that depends on the rounding, is computed in the doubles of the script.
  \<^item> \<^verbatim>\<open>Date.now()\<close> is a parameter \<open>currentTime\<close> of every function that reads the clock.
  \<^item> An exception thrown by \<^verbatim>\<open>executeSql\<close> is the \<open>Inl\<close> of a sum type.
\<close>

subsection \<open>Data\<close>

type_synonym date = int

record row =
  time :: date
  energy :: rat
  charging :: bool
  active :: bool
  event :: string

text \<open>
  The variables \<^verbatim>\<open>lastTime, lastEnergy, lastCharging, lastActive, lastEvent\<close> (line 10). The
  script assigns the five together (lines 97 to 101) or \<^verbatim>\<open>lastTime\<close> alone once the other
  four have compared equal to the arguments (line 85), so they are either all undefined or
  all defined: \<open>None\<close> is the state at process start.
\<close>

record cache =
  lastTime :: date
  lastEnergy :: rat
  lastCharging :: bool
  lastActive :: bool
  lastEvent :: string

text \<open>
  The state a call works on: the table (rows in insertion order), the cache, the variable
  \<^verbatim>\<open>timeoutIntervalInSeconds\<close> (undefined until \<^verbatim>\<open>init\<close> has run) and the lines written with
  \<^verbatim>\<open>console.log\<close>.
\<close>

record state =
  energy_log :: "row list"
  lastSample :: "cache option"
  timeoutIntervalInSeconds :: "int option"
  console :: "string list"

datatype error = ConstraintFailed

text \<open>What \<^verbatim>\<open>addOrUpdateEntry\<close> returns: the number \<^verbatim>\<open>0\<close> or the \<^verbatim>\<open>Date\<close> of the new row.\<close>

datatype retval = Zero | Time date

subsection \<open>The SQL statements\<close>

text \<open>
  \<^verbatim>\<open>INSERT INTO energy_log VALUES (?,?,?,?,?)\<close>: the primary key rejects a second row with a
  time already present, and \<^verbatim>\<open>executeSql\<close> throws; otherwise one row is affected.
\<close>

definition sqlInsert :: "row list \<Rightarrow> row \<Rightarrow> error + (nat \<times> row list)" where
  "sqlInsert tbl r =
     (if time r \<in> time ` set tbl then Inl ConstraintFailed else Inr (1, tbl @ [r]))"

text \<open>
  \<^verbatim>\<open>UPDATE energy_log SET time = ? WHERE time = ?\<close>: affects the rows whose time is the
  second parameter; throws when the new time is the key of another row.
\<close>

definition sqlUpdateTime :: "row list \<Rightarrow> date \<Rightarrow> date \<Rightarrow> error + (nat \<times> row list)" where
  "sqlUpdateTime tbl new old =
     (let hit = filter (\<lambda>r. time r = old) tbl in
      if hit \<noteq> [] \<and> new \<noteq> old \<and> new \<in> time ` set tbl then Inl ConstraintFailed
      else Inr (length hit, map (\<lambda>r. if time r = old then r\<lparr>time := new\<rparr> else r) tbl))"

text \<open>
  \<^verbatim>\<open>getDatabase().transaction(callback)\<close> runs the callback and commits; what the callback
  returns is dropped. When the callback throws, the transaction is rolled back and the
  exception goes on to the caller. In every callback of this module only the first
  statement, the \<^verbatim>\<open>executeSql\<close>, can throw, so the state at the exception is the state before
  the callback.
\<close>

definition transaction :: "(state \<Rightarrow> error + ('r \<times> state)) \<Rightarrow> state \<Rightarrow> error + state" where
  "transaction callback s =
     (case callback s of Inl e \<Rightarrow> Inl e | Inr (returned, s') \<Rightarrow> Inr s')"

subsection \<open>init, reset, cleanup\<close>

definition msPerDay :: int where
  "msPerDay = 86400000"

text \<open>
  A process starts with the persisted table and every script variable undefined.
  \<^verbatim>\<open>init\<close> (lines 22 to 29) sets the timeout; \<^verbatim>\<open>CREATE TABLE IF NOT EXISTS\<close> leaves an
  existing table as it is.
\<close>

definition processStart :: "row list \<Rightarrow> state" where
  "processStart tbl =
     \<lparr>energy_log = tbl, lastSample = None, timeoutIntervalInSeconds = None, console = []\<rparr>"

definition init :: "state \<Rightarrow> int \<Rightarrow> state" where
  "init s newTimeoutIntervalInSeconds =
     s\<lparr>timeoutIntervalInSeconds := Some newTimeoutIntervalInSeconds\<rparr>"

text \<open>\<^verbatim>\<open>reset\<close> (lines 45 to 51) deletes every row; it does not touch the cache.\<close>

definition reset :: "state \<Rightarrow> state" where
  "reset s = s\<lparr>energy_log := []\<rparr>"

text \<open>
  \<^verbatim>\<open>cleanup\<close> (lines 33 to 41): \<^verbatim>\<open>setDate(getDate() - maximumDays)\<close> is taken as
  \<open>maximumDays\<close> days of 86400000 ms.
\<close>

definition cleanup :: "state \<Rightarrow> date \<Rightarrow> int \<Rightarrow> state" where
  "cleanup s currentTime maximumDays =
     (let cleanupTime = currentTime - maximumDays * msPerDay
      in s\<lparr>energy_log := filter (\<lambda>r. \<not> time r < cleanupTime) (energy_log s)\<rparr>)"

subsection \<open>addEntry and addOrUpdateEntry\<close>

text \<open>
  \<^verbatim>\<open>addEntry\<close> (lines 107 to 118). The callback returns \<^verbatim>\<open>false\<close> when no row was affected
  and nothing (\<open>None\<close>) otherwise; \<^verbatim>\<open>addEntry\<close> itself returns \<^verbatim>\<open>true\<close> after the transaction.
\<close>

definition addEntryCallback :: "row \<Rightarrow> state \<Rightarrow> error + (bool option \<times> state)" where
  "addEntryCallback r s =
     (case sqlInsert (energy_log s) r of
        Inl e \<Rightarrow> Inl e
      | Inr (rowsAffected, tbl) \<Rightarrow>
          if rowsAffected = 0 then Inr (Some False, s\<lparr>energy_log := tbl\<rparr>)
          else Inr (None, s\<lparr>energy_log := tbl\<rparr>))"

definition addEntry ::
  "state \<Rightarrow> date \<Rightarrow> rat \<Rightarrow> bool \<Rightarrow> bool \<Rightarrow> string \<Rightarrow> error + (bool \<times> state)" where
  "addEntry s t en ch ac ev =
     (case transaction
             (addEntryCallback \<lparr>time = t, energy = en, charging = ch, active = ac, event = ev\<rparr>) s of
        Inl e \<Rightarrow> Inl e
      | Inr s' \<Rightarrow> Inr (True, s'))"

text \<open>
  Lines 89 to 102 of \<^verbatim>\<open>addOrUpdateEntry\<close>: create the new entry, then store the values for
  the next call.
\<close>

definition createNewEntry ::
  "state \<Rightarrow> date \<Rightarrow> rat \<Rightarrow> bool \<Rightarrow> bool \<Rightarrow> string \<Rightarrow> (error + retval) \<times> state" where
  "createNewEntry s currentTime en ch ac ev =
     (case addEntry s currentTime en ch ac ev of
        Inl e \<Rightarrow> (Inl e, s)
      | Inr (added, s1) \<Rightarrow>
          if \<not> added
          then (Inr Zero, s1\<lparr>console := console s1 @ [''Failed to add new energy_log entry.'']\<rparr>)
          else (Inr (Time currentTime),
                s1\<lparr>lastSample := Some \<lparr>lastTime = currentTime, lastEnergy = en,
                       lastCharging = ch, lastActive = ac, lastEvent = ev\<rparr>\<rparr>))"

text \<open>
  Lines 76 to 86, the branch taken when the sample equals the cached one. The callback
  logs and returns \<^verbatim>\<open>0\<close> when the update affected no row; after the transaction the script
  sets \<^verbatim>\<open>lastTime\<close> and returns \<^verbatim>\<open>0\<close>.
\<close>

definition updateCallback :: "date \<Rightarrow> date \<Rightarrow> state \<Rightarrow> error + (int option \<times> state)" where
  "updateCallback currentTime lastT s =
     (case sqlUpdateTime (energy_log s) currentTime lastT of
        Inl e \<Rightarrow> Inl e
      | Inr (rowsAffected, tbl) \<Rightarrow>
          if rowsAffected = 0
          then Inr (Some 0, s\<lparr>energy_log := tbl,
                   console := console s @ [''Failed to update previous energy_log entry.'']\<rparr>)
          else Inr (None, s\<lparr>energy_log := tbl\<rparr>))"

definition updatePreviousEntry :: "state \<Rightarrow> cache \<Rightarrow> date \<Rightarrow> (error + retval) \<times> state" where
  "updatePreviousEntry s l currentTime =
     (case transaction (updateCallback currentTime (lastTime l)) s of
        Inl e \<Rightarrow> (Inl e, s)
      | Inr s' \<Rightarrow> (Inr Zero, s'\<lparr>lastSample := Some (l\<lparr>lastTime := currentTime\<rparr>)\<rparr>))"

text \<open>
  The test of line 63, \<^verbatim>\<open>active && event !== "Start" && elapsedSeconds >
  timeoutIntervalInSeconds\<close> with \<^verbatim>\<open>elapsedSeconds = (currentTime - lastTime) / 1000\<close>. With
  \<^verbatim>\<open>lastTime\<close> or the timeout undefined the comparison is one with \<^verbatim>\<open>NaN\<close> and is false. When
  the test holds, the result is the time of the missed standby entry (lines 65 and 66),
  \<^verbatim>\<open>lastTime\<close> plus the timeout in seconds.
\<close>

definition missedStandby :: "state \<Rightarrow> date \<Rightarrow> bool \<Rightarrow> string \<Rightarrow> (cache \<times> date) option" where
  "missedStandby s currentTime ac ev =
     (case (lastSample s, timeoutIntervalInSeconds s) of
        (Some l, Some timeout) \<Rightarrow>
          if ac \<and> ev \<noteq> ''Start''
             \<and> (of_int (currentTime - lastTime l) :: rat) / 1000 > of_int timeout
          then Some (l, lastTime l + timeout * 1000)
          else None
      | _ \<Rightarrow> None)"

text \<open>The test of line 74; an undefined variable is identical to no argument.\<close>

definition sameAsLast :: "state \<Rightarrow> rat \<Rightarrow> bool \<Rightarrow> bool \<Rightarrow> string \<Rightarrow> cache option" where
  "sameAsLast s en ch ac ev =
     (case lastSample s of
        Some l \<Rightarrow>
          if lastEnergy l = en \<and> lastCharging l = ch \<and> lastActive l = ac \<and> lastEvent l = ev
          then Some l else None
      | None \<Rightarrow> None)"

definition addOrUpdateEntry ::
  "state \<Rightarrow> date \<Rightarrow> rat \<Rightarrow> bool \<Rightarrow> bool \<Rightarrow> string \<Rightarrow> (error + retval) \<times> state" where
  "addOrUpdateEntry s currentTime en ch ac ev =
     (case missedStandby s currentTime ac ev of
        Some (l, missedTime) \<Rightarrow>
          (case addEntry s missedTime (lastEnergy l) (lastCharging l) False '''' of
             Inl e \<Rightarrow> (Inl e, s)
           | Inr (added, s1) \<Rightarrow>
               if \<not> added
               then (Inr Zero,
                     s1\<lparr>console := console s1 @ [''Failed to add missing energy_log entry.'']\<rparr>)
               else createNewEntry s1 currentTime en ch ac ev)
      | None \<Rightarrow>
          (case sameAsLast s en ch ac ev of
             Some l \<Rightarrow> updatePreviousEntry s l currentTime
           | None \<Rightarrow> createNewEntry s currentTime en ch ac ev))"

text \<open>A sequence of calls, each with its clock reading; a call that throws leaves the
  state it had reached, and the next call goes on from there.\<close>

type_synonym sample = "date \<times> rat \<times> bool \<times> bool \<times> string"

fun recordAll :: "state \<Rightarrow> sample list \<Rightarrow> state" where
  "recordAll s [] = s"
| "recordAll s ((currentTime, en, ch, ac, ev) # calls) =
     recordAll (snd (addOrUpdateEntry s currentTime en ch ac ev)) calls"

text \<open>
  The state after a call that stored its sample at clock reading \<open>t\<close>: the rows are in
  strictly ascending time, the last row and \<^verbatim>\<open>lastTime\<close> are at \<open>t\<close>, and nothing was logged.
\<close>

definition upToDate :: "state \<Rightarrow> date \<Rightarrow> bool" where
  "upToDate s t =
     (sorted_wrt (<) (map time (energy_log s)) \<and> console s = [] \<and>
      (case lastSample s of
         None \<Rightarrow> False
       | Some l \<Rightarrow> lastTime l = t \<and> energy_log s \<noteq> [] \<and> time (last (energy_log s)) = t))"

subsection \<open>The SELECT statements\<close>

text \<open>
  \<^verbatim>\<open>ORDER BY time ASC\<close> is \<open>sort_key time\<close>, \<^verbatim>\<open>ORDER BY time DESC\<close> its reverse, \<^verbatim>\<open>LIMIT n\<close>
  is \<open>take n\<close>. A \<^verbatim>\<open>Date\<close> bound to a parameter is compared with the \<^verbatim>\<open>Date\<close> that was bound
  when the row was written. The five statements are those of lines 134, 153, 174, 214 and
  244; a \<^verbatim>\<open>SELECT\<close> on the table does not throw, so the transactions around them are left
  out.
\<close>

definition sqlSelectBetween :: "row list \<Rightarrow> date \<Rightarrow> date \<Rightarrow> row list" where
  "sqlSelectBetween tbl startTime endTime =
     sort_key time (filter (\<lambda>r. time r > startTime \<and> time r < endTime) tbl)"

definition sqlSelectAfter :: "row list \<Rightarrow> date \<Rightarrow> row list" where
  "sqlSelectAfter tbl t = take 1 (sort_key time (filter (\<lambda>r. time r > t) tbl))"

definition sqlSelectBefore :: "row list \<Rightarrow> date \<Rightarrow> row list" where
  "sqlSelectBefore tbl t = take 1 (rev (sort_key time (filter (\<lambda>r. time r < t) tbl)))"

definition sqlSelectEvents :: "row list \<Rightarrow> date \<Rightarrow> row list" where
  "sqlSelectEvents tbl startTime =
     take 400 (sort_key time
       (filter (\<lambda>r. time r > startTime \<and> event r \<noteq> '''' \<and> event r \<noteq> ''Stop'') tbl))"

definition sqlSelectDischarging :: "row list \<Rightarrow> date \<Rightarrow> row list" where
  "sqlSelectDischarging tbl startTime =
     take 1000 (sort_key time (filter (\<lambda>r. time r > startTime \<and> charging r = False) tbl))"

subsection \<open>Reading a stored time back\<close>

text \<open>
  The storage driver is not part of the module. It writes a bound \<^verbatim>\<open>Date\<close> as local
  wall-clock text without a zone, and \<^verbatim>\<open>new Date(item.time)\<close> reads that text as UTC: the
  \<^verbatim>\<open>Date\<close> read is the \<^verbatim>\<open>Date\<close> written minus the zone offset, where \<open>tzo\<close> is
  \<^verbatim>\<open>currentTime.getTimezoneOffset()\<close> in minutes. This is the shift that
  \<^verbatim>\<open>convertItemToEntry\<close> (lines 189 to 199) and \<^verbatim>\<open>getLatestEvents\<close> undo with
  \<^verbatim>\<open>time.setMinutes(time.getMinutes() + currentTime.getTimezoneOffset())\<close>. With a zone
  offset of 0 nothing is shifted either way.
\<close>

definition newDate :: "int \<Rightarrow> date \<Rightarrow> date" where
  "newDate tzo stored = stored - tzo * 60000"

definition convertItemToEntry :: "int \<Rightarrow> row \<Rightarrow> row" where
  "convertItemToEntry tzo item =
     \<lparr>time = newDate tzo (time item) + tzo * 60000, energy = energy item,
      charging = charging item, active = active item, event = event item\<rparr>"

subsection \<open>getLatestEntries\<close>

text \<open>
  Line 170 compares \<^verbatim>\<open>startEntry\<close>, the entry itself (an array), with the string
  \<^verbatim>\<open>"Start"\<close>. \<^verbatim>\<open>!==\<close> on values of different types is true; on two strings it compares
  the characters. Two arrays, which compare by identity, are never compared by the module.
\<close>

datatype jsvalue = JSArray row | JSString string

fun strictNotEqual :: "jsvalue \<Rightarrow> jsvalue \<Rightarrow> bool" where
  "strictNotEqual (JSString a) (JSString b) = (a \<noteq> b)"
| "strictNotEqual (JSArray a) (JSString b) = True"
| "strictNotEqual (JSString a) (JSArray b) = True"

text \<open>Lines 144 to 163: the entry at the end border. \<open>entries\<close> has two elements or more.\<close>

definition addAfterEnd :: "int \<Rightarrow> row list \<Rightarrow> date \<Rightarrow> row list \<Rightarrow> row list" where
  "addAfterEnd tzo tbl endTime entries =
     (let endEntry = last entries;
          endEntryTime = time endEntry;
          endEnergy = energy endEntry;
          endEvent = event endEntry
      in if endEvent \<noteq> ''Stop'' then
           (case sqlSelectAfter tbl endEntryTime of
              [item] \<Rightarrow>
                (let entry = convertItemToEntry tzo item;
                     s = (of_int (endTime - endEntryTime) :: rat) / of_int (time entry - endEntryTime)
                 in entries @ [entry\<lparr>energy := endEnergy * (1 - s) + energy entry * s,
                                     time := endTime\<rparr>])
            | _ \<Rightarrow> entries)
         else entries)"

text \<open>Lines 165 to 184: the entry at the start border.\<close>

definition addBeforeStart :: "int \<Rightarrow> row list \<Rightarrow> date \<Rightarrow> row list \<Rightarrow> row list" where
  "addBeforeStart tzo tbl startTime entries =
     (let startEntry = hd entries;
          startEntryTime = time startEntry;
          startEnergy = energy startEntry;
          startEvent = event startEntry
      in if strictNotEqual (JSArray startEntry) (JSString ''Start'') then
           (case sqlSelectBefore tbl startEntryTime of
              [item] \<Rightarrow>
                (let entry = convertItemToEntry tzo item;
                     s = (of_int (startTime - startEntryTime) :: rat)
                           / of_int (time entry - startEntryTime)
                 in entry\<lparr>energy := startEnergy * (1 - s) + energy entry * s,
                          time := startTime\<rparr> # entries)
            | _ \<Rightarrow> entries)
         else entries)"

text \<open>
  \<^verbatim>\<open>getLatestEntries\<close> (lines 122 to 187). \<^verbatim>\<open>setDate(getDate() - n)\<close> is taken as \<open>n\<close> days of
  86400000 ms.
\<close>

definition getLatestEntries :: "int \<Rightarrow> row list \<Rightarrow> date \<Rightarrow> int \<Rightarrow> int \<Rightarrow> row list" where
  "getLatestEntries tzo tbl currentTime dayCount dayOffset =
     (let startTime = currentTime - (dayCount + dayOffset) * msPerDay;
          endTime = currentTime - dayOffset * msPerDay;
          entries = map (convertItemToEntry tzo) (sqlSelectBetween tbl startTime endTime)
      in if length entries > 1
         then addBeforeStart tzo tbl startTime (addAfterEnd tzo tbl endTime entries)
         else entries)"

subsection \<open>getLatestEvents\<close>

type_synonym event_entry = "date \<times> rat \<times> bool \<times> string"

text \<open>
  The loop of lines 215 to 227, over the rows still to visit, with the array \<^verbatim>\<open>entries\<close>
  and the local \<^verbatim>\<open>lastEvent\<close> (undefined at first).
\<close>

fun eventsLoop ::
  "int \<Rightarrow> row list \<Rightarrow> event_entry list \<times> string option \<Rightarrow> event_entry list \<times> string option" where
  "eventsLoop tzo [] (entries, lastEv) = (entries, lastEv)"
| "eventsLoop tzo (item # items) (entries, lastEv) =
     (let t = newDate tzo (time item) + tzo * 60000;
          en = energy item;
          ch = charging item;
          ev = event item
      in if Some ev \<noteq> lastEv
         then eventsLoop tzo items (entries @ [(t, en, ch, ev)], Some ev)
         else eventsLoop tzo items (entries, lastEv))"

definition getLatestEvents :: "int \<Rightarrow> row list \<Rightarrow> date \<Rightarrow> int \<Rightarrow> event_entry list" where
  "getLatestEvents tzo tbl currentTime dayCount =
     (let startTime = currentTime - dayCount * msPerDay
      in fst (eventsLoop tzo (sqlSelectEvents tbl startTime) ([], None)))"

subsection \<open>JavaScript numbers\<close>

text \<open>
  \<^verbatim>\<open>getAveragePower\<close> returns an integer that depends on how the quotient of line 266 is
  rounded, so its arithmetic is that of the script: every operation gives the IEEE 754
  binary64 number nearest to the exact result, a tie going to the even significand. A
  number is a rational that is such a double, an infinity or \<^verbatim>\<open>NaN\<close>. The sign of a zero is
  not kept: the only division by a number that can be zero is the one by
  \<^verbatim>\<open>duration / 1000\<close>, and that zero is a positive one.
\<close>

datatype number = Num rat | PlusInfinity | MinusInfinity | NaN

text \<open>The number of binary digits of a positive integer.\<close>

function bitLength :: "int \<Rightarrow> int" where
  "bitLength n = (if n \<le> 0 then 0 else 1 + bitLength (n div 2))"
  by pat_completeness auto
termination
  by (relation "measure nat") auto

declare bitLength.simps [simp del]

text \<open>For a positive \<open>x\<close>, the exponent \<open>e\<close> with \<open>2^e \<le> x < 2^(e+1)\<close>.\<close>

definition exponentOf :: "rat \<Rightarrow> int" where
  "exponentOf x =
     (if 1 \<le> x then bitLength \<lfloor>x\<rfloor> - 1 else - bitLength (\<lceil>1 / x\<rceil> - 1))"

definition pow2 :: "int \<Rightarrow> rat" where
  "pow2 e = (if 0 \<le> e then 2 ^ nat e else 1 / 2 ^ nat (- e))"

definition roundHalfEven :: "rat \<Rightarrow> int" where
  "roundHalfEven x =
     (let f = \<lfloor>x\<rfloor>; d = x - of_int f
      in if d < 1 / 2 then f else if 1 / 2 < d then f + 1 else if even f then f else f + 1)"

text \<open>
  Rounding to binary64: 53 significant bits, so the spacing of the doubles around \<open>x\<close> is
  \<open>2^(e - 52)\<close>, with the exponent not below -1022 (the subnormal range); a result of
  \<open>2^1024\<close> or more is an infinity.
\<close>

definition toDouble :: "rat \<Rightarrow> number" where
  "toDouble x =
     (if x = 0 then Num 0
      else
        (let a = \<bar>x\<bar>;
             e = max (exponentOf a) (- 1022);
             q = pow2 (e - 52);
             m = roundHalfEven (a / q)
         in if 1023 < e \<or> (e = 1023 \<and> 9007199254740992 \<le> m)
            then (if 0 < x then PlusInfinity else MinusInfinity)
            else Num (if 0 < x then of_int m * q else - (of_int m * q))))"

text \<open>The operators \<^verbatim>\<open>+\<close>, \<^verbatim>\<open>-\<close>, \<^verbatim>\<open>*\<close>, \<^verbatim>\<open>/\<close> and \<^verbatim>\<open><=\<close> on numbers, and the test \<^verbatim>\<open>x > 0\<close>.\<close>

fun jsAdd :: "number \<Rightarrow> number \<Rightarrow> number" where
  "jsAdd (Num a) (Num b) = toDouble (a + b)"
| "jsAdd NaN y = NaN"
| "jsAdd x NaN = NaN"
| "jsAdd PlusInfinity MinusInfinity = NaN"
| "jsAdd MinusInfinity PlusInfinity = NaN"
| "jsAdd PlusInfinity y = PlusInfinity"
| "jsAdd MinusInfinity y = MinusInfinity"
| "jsAdd (Num a) y = y"

fun jsSub :: "number \<Rightarrow> number \<Rightarrow> number" where
  "jsSub (Num a) (Num b) = toDouble (a - b)"
| "jsSub NaN y = NaN"
| "jsSub x NaN = NaN"
| "jsSub PlusInfinity PlusInfinity = NaN"
| "jsSub MinusInfinity MinusInfinity = NaN"
| "jsSub PlusInfinity y = PlusInfinity"
| "jsSub MinusInfinity y = MinusInfinity"
| "jsSub (Num a) PlusInfinity = MinusInfinity"
| "jsSub (Num a) MinusInfinity = PlusInfinity"

fun jsMul :: "number \<Rightarrow> number \<Rightarrow> number" where
  "jsMul (Num a) (Num b) = toDouble (a * b)"
| "jsMul NaN y = NaN"
| "jsMul x NaN = NaN"
| "jsMul (Num a) PlusInfinity =
     (if 0 < a then PlusInfinity else if a < 0 then MinusInfinity else NaN)"
| "jsMul (Num a) MinusInfinity =
     (if 0 < a then MinusInfinity else if a < 0 then PlusInfinity else NaN)"
| "jsMul PlusInfinity (Num b) =
     (if 0 < b then PlusInfinity else if b < 0 then MinusInfinity else NaN)"
| "jsMul MinusInfinity (Num b) =
     (if 0 < b then MinusInfinity else if b < 0 then PlusInfinity else NaN)"
| "jsMul PlusInfinity PlusInfinity = PlusInfinity"
| "jsMul MinusInfinity MinusInfinity = PlusInfinity"
| "jsMul PlusInfinity MinusInfinity = MinusInfinity"
| "jsMul MinusInfinity PlusInfinity = MinusInfinity"

fun jsDiv :: "number \<Rightarrow> number \<Rightarrow> number" where
  "jsDiv (Num a) (Num b) =
     (if b = 0 then (if 0 < a then PlusInfinity else if a < 0 then MinusInfinity else NaN)
      else toDouble (a / b))"
| "jsDiv NaN y = NaN"
| "jsDiv x NaN = NaN"
| "jsDiv (Num a) y = Num 0"
| "jsDiv PlusInfinity (Num b) = (if 0 \<le> b then PlusInfinity else MinusInfinity)"
| "jsDiv MinusInfinity (Num b) = (if 0 \<le> b then MinusInfinity else PlusInfinity)"
| "jsDiv x y = NaN"

fun jsLessEq :: "number \<Rightarrow> number \<Rightarrow> bool" where
  "jsLessEq (Num a) (Num b) = (a \<le> b)"
| "jsLessEq NaN y = False"
| "jsLessEq x NaN = False"
| "jsLessEq MinusInfinity y = True"
| "jsLessEq x PlusInfinity = True"
| "jsLessEq x y = False"

fun greaterThanZero :: "number \<Rightarrow> bool" where
  "greaterThanZero (Num a) = (0 < a)"
| "greaterThanZero PlusInfinity = True"
| "greaterThanZero x = False"

text \<open>
  \<^verbatim>\<open>Math.round\<close> gives the integer nearest to its argument, the greater one of two that are
  equally near; an infinity and \<^verbatim>\<open>NaN\<close> stay as they are.
\<close>

fun Math_round :: "number \<Rightarrow> number" where
  "Math_round (Num x) = Num (of_int \<lfloor>x + 1 / 2\<rfloor>)"
| "Math_round x = x"

subsection \<open>getAveragePower\<close>

text \<open>
  The loop of lines 249 to 263 with its variables \<^verbatim>\<open>previousEnergy, previousTime,
  previousEvent\<close> and \<^verbatim>\<open>sum, duration\<close>. The energy of a row reaches the script as a number:
  \<^verbatim>\<open>item.energy\<close> is the double nearest to the energy of the row (that energy itself, when
  it is a double). The time value of a \<^verbatim>\<open>Date\<close> is an integer of at most 8.64e15 in
  magnitude, which is a double.
\<close>

fun powerLoop ::
  "int \<Rightarrow> row list \<Rightarrow> number \<times> date \<times> string \<Rightarrow> number \<times> number \<Rightarrow> number \<times> number" where
  "powerLoop tzo [] previous (energySum, duration) = (energySum, duration)"
| "powerLoop tzo (item # items) (previousEnergy, previousTime, previousEvent) (energySum, duration) =
     (let t = newDate tzo (time item);
          en = toDouble (energy item);
          ev = event item
      in powerLoop tzo items (en, t, ev)
           (if jsLessEq en previousEnergy \<and> previousEvent \<noteq> ''Stop''
            then (jsAdd energySum (jsSub previousEnergy en),
                  jsAdd duration (toDouble (of_int (t - previousTime))))
            else (energySum, duration)))"

text \<open>\<^verbatim>\<open>getAveragePower\<close> (lines 234 to 271); \<^verbatim>\<open>averagePower\<close> starts as \<^verbatim>\<open>0.0\<close>.\<close>

definition getAveragePower :: "int \<Rightarrow> row list \<Rightarrow> date \<Rightarrow> int \<Rightarrow> number" where
  "getAveragePower tzo tbl currentTime dayCount =
     (let startTime = currentTime - dayCount * msPerDay;
          rows = sqlSelectDischarging tbl startTime
      in case rows of
           first # second # others \<Rightarrow>
             (let (energySum, duration) =
                    powerLoop tzo (second # others)
                      (toDouble (energy first), newDate tzo (time first), event first)
                      (Num 0, Num 0)
              in if greaterThanZero energySum
                 then Math_round (jsDiv (jsMul energySum (Num 3600)) (jsDiv duration (Num 1000)))
                 else Num 0)
         | _ \<Rightarrow> Num 0)"

subsection \<open>The queries in the words of the specification\<close>

text \<open>
  Event timeline: where the same event label repeats in consecutive rows, only the first
  of them is kept.
\<close>

fun keepFirstOfRun :: "row list \<Rightarrow> row list" where
  "keepFirstOfRun [] = []"
| "keepFirstOfRun [r] = [r]"
| "keepFirstOfRun (r # r' # rs) =
     (if event r' = event r then keepFirstOfRun (r # rs) else r # keepFirstOfRun (r' # rs))"

definition timelineEntry :: "row \<Rightarrow> event_entry" where
  "timelineEntry r = (time r, energy r, charging r, event r)"

text \<open>
  Average power: the consecutive pairs (prev, cur) that count are those with
  \<open>cur.energy \<le> prev.energy\<close> and \<open>prev.event \<noteq> "Stop"\<close>; \<open>sum\<close> adds their energy drops,
  \<open>duration\<close> their time differences, one pair after the other from 0, in the arithmetic
  of the script.
\<close>

definition countedPairs :: "row list \<Rightarrow> (row \<times> row) list" where
  "countedPairs rows =
     filter (\<lambda>(prev, cur). jsLessEq (toDouble (energy cur)) (toDouble (energy prev))
                           \<and> event prev \<noteq> ''Stop'')
       (zip rows (tl rows))"

definition specSum :: "row list \<Rightarrow> number" where
  "specSum rows =
     foldl (\<lambda>acc (prev, cur). jsAdd acc (jsSub (toDouble (energy prev)) (toDouble (energy cur))))
       (Num 0) (countedPairs rows)"

definition specDuration :: "row list \<Rightarrow> number" where
  "specDuration rows =
     foldl (\<lambda>acc (prev, cur). jsAdd acc (toDouble (of_int (time cur - time prev)))) (Num 0)
       (countedPairs rows)"

definition specAveragePower :: "row list \<Rightarrow> number" where
  "specAveragePower rows =
     (if greaterThanZero (specSum rows)
      then Math_round (jsDiv (jsMul (specSum rows) (Num 3600)) (jsDiv (specDuration rows) (Num 1000)))
      else Num 0)"

text \<open>The components of an entry of \<^verbatim>\<open>getLatestEvents\<close>: \<^verbatim>\<open>entry[0]\<close> and \<^verbatim>\<open>entry[3]\<close>.\<close>

definition entryTime :: "event_entry \<Rightarrow> date" where
  "entryTime e = fst e"

definition entryEvent :: "event_entry \<Rightarrow> string" where
  "entryEvent e = snd (snd (snd e))"

subsection \<open>Example states and tables\<close>

text \<open>
  The state after \<^verbatim>\<open>init(60)\<close> and one call
  \<^verbatim>\<open>addOrUpdateEntry(100, false, true, "")\<close> at clock reading 1000 on an empty table.
\<close>

definition exampleAfterFirst :: state where
  "exampleAfterFirst =
     \<lparr>energy_log = [\<lparr>time = 1000, energy = 100, charging = False, active = True, event = ''''\<rparr>],
      lastSample = Some \<lparr>lastTime = 1000, lastEnergy = 100, lastCharging = False,
                         lastActive = True, lastEvent = ''''\<rparr>,
      timeoutIntervalInSeconds = Some 60, console = []\<rparr>"

text \<open>
  Tables for the window query, with times in whole days: a row at day 0 with energy 100
  and a row at day 100 with energy 0; a table whose first row inside the window from day
  25 to day 75 carries the event \<^verbatim>\<open>"Start"\<close>; a table with a row before, two rows inside and
  a row after that window.
\<close>

definition exampleTwoRows :: "row list" where
  "exampleTwoRows =
     [\<lparr>time = 0, energy = 100, charging = False, active = True, event = ''''\<rparr>,
      \<lparr>time = 100 * msPerDay, energy = 0, charging = False, active = True, event = ''''\<rparr>]"

definition exampleStartRows :: "row list" where
  "exampleStartRows =
     [\<lparr>time = 5 * msPerDay, energy = 100, charging = False, active = False, event = ''''\<rparr>,
      \<lparr>time = 30 * msPerDay, energy = 80, charging = False, active = True, event = ''Start''\<rparr>,
      \<lparr>time = 50 * msPerDay, energy = 60, charging = False, active = True, event = ''''\<rparr>]"


text \<open>Four rows with the events Charging, Charging, Full, Charging, all of them charging.\<close>

definition exampleEventRows :: "row list" where
  "exampleEventRows =
     [\<lparr>time = 1000, energy = 50, charging = True, active = True, event = ''Charging''\<rparr>,
      \<lparr>time = 2000, energy = 60, charging = True, active = True, event = ''Charging''\<rparr>,
      \<lparr>time = 3000, energy = 70, charging = True, active = True, event = ''Full''\<rparr>,
      \<lparr>time = 4000, energy = 65, charging = True, active = True, event = ''Charging''\<rparr>]"

text \<open>
  Five discharging rows an hour apart and one charging row: a drop of 100, a rise, a drop
  of 51 into a \<^verbatim>\<open>"Stop"\<close> row, and a drop after the \<^verbatim>\<open>"Stop"\<close>.
\<close>

definition exampleDischargeRows :: "row list" where
  "exampleDischargeRows =
     [\<lparr>time = 0, energy = 1000, charging = False, active = True, event = ''''\<rparr>,
      \<lparr>time = 3600000, energy = 900, charging = False, active = True, event = ''''\<rparr>,
      \<lparr>time = 5000000, energy = 2000, charging = True, active = True, event = ''Charging''\<rparr>,
      \<lparr>time = 7200000, energy = 950, charging = False, active = True, event = ''Discharging''\<rparr>,
      \<lparr>time = 10800000, energy = 899, charging = False, active = False, event = ''Stop''\<rparr>,
      \<lparr>time = 14400000, energy = 800, charging = False, active = True, event = ''Start''\<rparr>]"

text \<open>
  Tables whose rows are later than the clock reading of the query (day 10 against day 2),
  and two discharging rows with a drop of 7 over 8960 ms.
\<close>

definition exampleFutureEvent :: "row list" where
  "exampleFutureEvent =
     [\<lparr>time = 10 * msPerDay, energy = 70, charging = True, active = True, event = ''Full''\<rparr>]"

definition exampleFutureDischarge :: "row list" where
  "exampleFutureDischarge =
     [\<lparr>time = 10 * msPerDay, energy = 1000, charging = False, active = True, event = ''''\<rparr>,
      \<lparr>time = 10 * msPerDay + 3600000, energy = 940, charging = False, active = True, event = ''''\<rparr>]"

definition exampleTieRows :: "row list" where
  "exampleTieRows =
     [\<lparr>time = 1000, energy = 1007, charging = False, active = True, event = ''''\<rparr>,
      \<lparr>time = 9960, energy = 1000, charging = False, active = True, event = ''''\<rparr>]"

section \<open>Ingestion\<close>

lemmas ingestion_defs =
  addOrUpdateEntry_def missedStandby_def sameAsLast_def updatePreviousEntry_def
  transaction_def updateCallback_def sqlUpdateTime_def createNewEntry_def addEntry_def
  addEntryCallback_def sqlInsert_def init_def processStart_def reset_def

lemma addEntry_fresh:
  "t \<notin> time ` set (energy_log s) \<Longrightarrow>
   addEntry s t en ch ac ev =
     Inr (True, s\<lparr>energy_log := energy_log s @
            [\<lparr>time = t, energy = en, charging = ch, active = ac, event = ev\<rparr>]\<rparr>)"
  by (simp add: addEntry_def transaction_def addEntryCallback_def sqlInsert_def)

lemma addEntry_clash:
  "t \<in> time ` set (energy_log s) \<Longrightarrow> addEntry s t en ch ac ev = Inl ConstraintFailed"
  by (simp add: addEntry_def transaction_def addEntryCallback_def sqlInsert_def)

lemma addEntry_added: "addEntry s t en ch ac ev = Inr (added, s') \<Longrightarrow> added"
  by (cases "t \<in> time ` set (energy_log s)") (auto simp: addEntry_fresh addEntry_clash)

lemma createNewEntry_fresh:
  "t \<notin> time ` set (energy_log s) \<Longrightarrow>
   createNewEntry s t en ch ac ev =
     (Inr (Time t),
      s\<lparr>energy_log := energy_log s @
            [\<lparr>time = t, energy = en, charging = ch, active = ac, event = ev\<rparr>],
        lastSample := Some \<lparr>lastTime = t, lastEnergy = en, lastCharging = ch,
                             lastActive = ac, lastEvent = ev\<rparr>\<rparr>)"
  by (simp add: createNewEntry_def addEntry_fresh)

lemma createNewEntry_clash:
  "t \<in> time ` set (energy_log s) \<Longrightarrow>
   createNewEntry s t en ch ac ev = (Inl ConstraintFailed, s)"
  by (simp add: createNewEntry_def addEntry_clash)

lemma elapsed_exceeds: "((of_int x :: rat) / 1000 > of_int T) = (T * 1000 < x)"
proof -
  have "((of_int x :: rat) / 1000 > of_int T) = ((of_int T :: rat) * 1000 < of_int x)"
    by (simp add: pos_less_divide_eq)
  also have "\<dots> = ((of_int (T * 1000) :: rat) < of_int x)"
    by simp
  also have "\<dots> = (T * 1000 < x)"
    by (simp only: of_int_less_iff)
  finally show ?thesis .
qed

lemma missedStandby_Some:
  "lastSample s = Some l \<Longrightarrow> timeoutIntervalInSeconds s = Some T \<Longrightarrow> ac \<Longrightarrow>
   ev \<noteq> ''Start'' \<Longrightarrow> T * 1000 < currentTime - lastTime l \<Longrightarrow>
   missedStandby s currentTime ac ev = Some (l, lastTime l + T * 1000)"
  by (simp add: missedStandby_def elapsed_exceeds)

lemma updatePreviousEntry_hit:
  assumes "lastTime l \<in> time ` set (energy_log s)"
    and "currentTime \<notin> time ` set (energy_log s) - {lastTime l}"
  shows "updatePreviousEntry s l currentTime =
     (Inr Zero,
      s\<lparr>energy_log := map (\<lambda>r. if time r = lastTime l then r\<lparr>time := currentTime\<rparr> else r)
                           (energy_log s),
        lastSample := Some (l\<lparr>lastTime := currentTime\<rparr>)\<rparr>)"
proof -
  have hit: "filter (\<lambda>r. time r = lastTime l) (energy_log s) \<noteq> []"
    using assms(1) by (auto simp: filter_empty_conv)
  have "sqlUpdateTime (energy_log s) currentTime (lastTime l) =
      Inr (length (filter (\<lambda>r. time r = lastTime l) (energy_log s)),
           map (\<lambda>r. if time r = lastTime l then r\<lparr>time := currentTime\<rparr> else r) (energy_log s))"
    using assms(2) by (auto simp: sqlUpdateTime_def Let_def)
  then show ?thesis
    using hit by (simp add: updatePreviousEntry_def transaction_def updateCallback_def)
qed

lemma updatePreviousEntry_miss:
  assumes "lastTime l \<notin> time ` set (energy_log s)"
  shows "updatePreviousEntry s l currentTime =
     (Inr Zero,
      s\<lparr>console := console s @ [''Failed to update previous energy_log entry.''],
        lastSample := Some (l\<lparr>lastTime := currentTime\<rparr>)\<rparr>)"
proof -
  have miss: "\<And>r. r \<in> set (energy_log s) \<Longrightarrow> time r \<noteq> lastTime l"
    using assms by (metis imageI)
  have hit: "filter (\<lambda>r. time r = lastTime l) (energy_log s) = []"
    by (simp add: filter_empty_conv miss)
  have same: "map (\<lambda>r. if time r = lastTime l then r\<lparr>time := currentTime\<rparr> else r) (energy_log s)
      = energy_log s"
    by (rule map_idI) (simp add: miss)
  show ?thesis
    using hit same 
    by (simp add: updatePreviousEntry_def transaction_def updateCallback_def sqlUpdateTime_def)
qed

lemma createNewEntry_cases:
  "createNewEntry s t en ch ac ev = (Inl ConstraintFailed, s) \<or>
   createNewEntry s t en ch ac ev =
     (Inr (Time t),
      s\<lparr>energy_log := energy_log s @
            [\<lparr>time = t, energy = en, charging = ch, active = ac, event = ev\<rparr>],
        lastSample := Some \<lparr>lastTime = t, lastEnergy = en, lastCharging = ch,
                             lastActive = ac, lastEvent = ev\<rparr>\<rparr>)"
  by (cases "t \<in> time ` set (energy_log s)") (simp_all add: createNewEntry_fresh createNewEntry_clash)

lemma createNewEntry_console:
  "console (snd (createNewEntry s t en ch ac ev)) = console s"
  using createNewEntry_cases [of s t en ch ac ev] by auto

lemma createNewEntry_not_Zero:
  "fst (createNewEntry s t en ch ac ev) \<noteq> Inr Zero"
  using createNewEntry_cases [of s t en ch ac ev] by auto

lemma createNewEntry_distinct:
  "distinct (map time (energy_log s)) \<Longrightarrow>
   distinct (map time (energy_log (snd (createNewEntry s t en ch ac ev))))"
  by (cases "t \<in> time ` set (energy_log s)") (simp_all add: createNewEntry_fresh createNewEntry_clash)

lemma updatePreviousEntry_throws:
  assumes "lastTime l \<in> time ` set (energy_log s)"
    and "currentTime \<in> time ` set (energy_log s) - {lastTime l}"
  shows "updatePreviousEntry s l currentTime = (Inl ConstraintFailed, s)"
proof -
  have hit: "filter (\<lambda>r. time r = lastTime l) (energy_log s) \<noteq> []"
    using assms(1) by (auto simp: filter_empty_conv)
  have "sqlUpdateTime (energy_log s) currentTime (lastTime l) = Inl ConstraintFailed"
    using assms(2) hit by (auto simp: sqlUpdateTime_def Let_def)
  then show ?thesis
    by (simp add: updatePreviousEntry_def transaction_def updateCallback_def)
qed

lemma updatePreviousEntry_console:
  "console (snd (updatePreviousEntry s l currentTime)) = console s \<or>
   console (snd (updatePreviousEntry s l currentTime)) =
     console s @ [''Failed to update previous energy_log entry.'']"
proof (cases "lastTime l \<in> time ` set (energy_log s)")
  case False
  then show ?thesis by (simp add: updatePreviousEntry_miss)
next
  case hit: True
  show ?thesis
  proof (cases "currentTime \<in> time ` set (energy_log s) - {lastTime l}")
    case True
    show ?thesis
      by (simp add: updatePreviousEntry_throws [OF hit True])
  next
    case False
    show ?thesis
      by (simp add: updatePreviousEntry_hit [OF hit False])
  qed
qed

lemma distinct_retime:
  "distinct xs \<Longrightarrow> new \<notin> set xs - {old} \<Longrightarrow>
   distinct (map (\<lambda>t. if t = old then new else t) xs)"
  by (induction xs) (auto split: if_splits)

lemma retime_times:
  "map time (map (\<lambda>r. if time r = old then r\<lparr>time := new\<rparr> else r) tbl) =
   map (\<lambda>t. if t = old then new else t) (map time tbl)"
  by (induction tbl) auto

lemma updatePreviousEntry_distinct:
  assumes "distinct (map time (energy_log s))"
  shows "distinct (map time (energy_log (snd (updatePreviousEntry s l currentTime))))"
proof (cases "lastTime l \<in> time ` set (energy_log s)")
  case False
  then show ?thesis using assms by (simp add: updatePreviousEntry_miss)
next
  case hit: True
  show ?thesis
  proof (cases "currentTime \<in> time ` set (energy_log s) - {lastTime l}")
    case True
    show ?thesis
      using assms by (simp add: updatePreviousEntry_throws [OF hit True])
  next
    case False
    then have "currentTime \<notin> set (map time (energy_log s)) - {lastTime l}"
      by simp
    with assms have "distinct (map (\<lambda>t. if t = lastTime l then currentTime else t)
                 (map time (energy_log s)))"
      by (rule distinct_retime)
    then show ?thesis
      by (simp add: updatePreviousEntry_hit [OF hit False] retime_times del: map_map)
  qed
qed

lemma addOrUpdateEntry_distinct:
  assumes "distinct (map time (energy_log s))"
  shows "distinct (map time (energy_log (snd (addOrUpdateEntry s currentTime en ch ac ev))))"
proof (cases "missedStandby s currentTime ac ev")
  case None
  then show ?thesis
    using assms
    by (simp add: addOrUpdateEntry_def createNewEntry_distinct updatePreviousEntry_distinct
        split: option.splits)
next
  case (Some a)
  obtain l missedTime where a: "a = (l, missedTime)" by (cases a)
  show ?thesis
  proof (cases "missedTime \<in> time ` set (energy_log s)")
    case True
    then show ?thesis using assms Some a
      by (simp add: addOrUpdateEntry_def addEntry_clash)
  next
    case False
    let ?s1 = "s\<lparr>energy_log := energy_log s @
            [\<lparr>time = missedTime, energy = lastEnergy l, charging = lastCharging l,
              active = False, event = ''''\<rparr>]\<rparr>"
    have "distinct (map time (energy_log ?s1))"
      using assms False by simp
    then have "distinct (map time (energy_log (snd (createNewEntry ?s1 currentTime en ch ac ev))))"
      by (rule createNewEntry_distinct)
    then show ?thesis using Some a False
      by (simp add: addOrUpdateEntry_def addEntry_fresh)
  qed
qed

lemma recordAll_distinct:
  "distinct (map time (energy_log s)) \<Longrightarrow> distinct (map time (energy_log (recordAll s calls)))"
proof (induction calls arbitrary: s)
  case Nil
  then show ?case by simp
next
  case (Cons c calls)
  obtain currentTime en ch ac ev where c: "c = (currentTime, en, ch, ac, ev)"
    by (cases c)
  show ?case
    unfolding c recordAll.simps
    by (rule Cons.IH) (rule addOrUpdateEntry_distinct [OF Cons.prems])
qed

subsection \<open>The same sample twice\<close>

text \<open>
  Claim C1. When the cache holds the very values of the call, the call is not one that
  adds a missed standby entry, the row with the cached time is in the table and the clock
  reading is not the time of another row, then the call creates no row: it moves that
  row's time to the clock reading, sets \<^verbatim>\<open>lastTime\<close> to it and returns \<^verbatim>\<open>0\<close>. Two calls in a
  row with the same values on an empty table, the second without a missed standby, leave
  exactly one row, whose time is the second clock reading.
\<close>

theorem merge_idempotence:
  "(lastSample s = Some l \<and> lastEnergy l = en \<and> lastCharging l = ch \<and> lastActive l = ac \<and>
    lastEvent l = ev \<and> missedStandby s currentTime ac ev = None \<and>
    lastTime l \<in> time ` set (energy_log s) \<and>
    currentTime \<notin> time ` set (energy_log s) - {lastTime l} \<longrightarrow>
      addOrUpdateEntry s currentTime en ch ac ev =
        (Inr Zero,
         s\<lparr>energy_log := map (\<lambda>r. if time r = lastTime l then r\<lparr>time := currentTime\<rparr> else r)
                              (energy_log s),
           lastSample := Some (l\<lparr>lastTime := currentTime\<rparr>)\<rparr>) \<and>
      length (energy_log (snd (addOrUpdateEntry s currentTime en ch ac ev))) =
        length (energy_log s)) \<and>
   (\<not> (ac \<and> ev \<noteq> ''Start'' \<and> timeout * 1000 < t2 - t1) \<longrightarrow>
      fst (addOrUpdateEntry
             (snd (addOrUpdateEntry (init (processStart []) timeout) t1 en ch ac ev))
             t2 en ch ac ev) = Inr Zero \<and>
      energy_log (recordAll (init (processStart []) timeout)
                    [(t1, en, ch, ac, ev), (t2, en, ch, ac, ev)]) =
        [\<lparr>time = t2, energy = en, charging = ch, active = ac, event = ev\<rparr>])"
proof (intro conjI impI)
  assume a: "lastSample s = Some l \<and> lastEnergy l = en \<and> lastCharging l = ch \<and>
    lastActive l = ac \<and> lastEvent l = ev \<and> missedStandby s currentTime ac ev = None \<and>
    lastTime l \<in> time ` set (energy_log s) \<and>
    currentTime \<notin> time ` set (energy_log s) - {lastTime l}"
  then have same: "sameAsLast s en ch ac ev = Some l"
    by (simp add: sameAsLast_def)
  from a have hit: "lastTime l \<in> time ` set (energy_log s)"
    and free: "currentTime \<notin> time ` set (energy_log s) - {lastTime l}"
    by simp_all
  from a same show r: "addOrUpdateEntry s currentTime en ch ac ev =
        (Inr Zero,
         s\<lparr>energy_log := map (\<lambda>r. if time r = lastTime l then r\<lparr>time := currentTime\<rparr> else r)
                              (energy_log s),
           lastSample := Some (l\<lparr>lastTime := currentTime\<rparr>)\<rparr>)"
    by (simp add: addOrUpdateEntry_def updatePreviousEntry_hit [OF hit free])
  show "length (energy_log (snd (addOrUpdateEntry s currentTime en ch ac ev))) =
        length (energy_log s)"
    by (simp add: r)
next
  assume g: "\<not> (ac \<and> ev \<noteq> ''Start'' \<and> timeout * 1000 < t2 - t1)"
  then show "fst (addOrUpdateEntry
             (snd (addOrUpdateEntry (init (processStart []) timeout) t1 en ch ac ev))
             t2 en ch ac ev) = Inr Zero"
    by (auto simp add: ingestion_defs elapsed_exceeds)
next
  assume g: "\<not> (ac \<and> ev \<noteq> ''Start'' \<and> timeout * 1000 < t2 - t1)"
  then show "energy_log (recordAll (init (processStart []) timeout)
                    [(t1, en, ch, ac, ev), (t2, en, ch, ac, ev)]) =
        [\<lparr>time = t2, energy = en, charging = ch, active = ac, event = ev\<rparr>]"
    by (auto simp add: ingestion_defs elapsed_exceeds)
qed


theorem merge_idempotence_witness:
  "lastSample exampleAfterFirst =
     Some \<lparr>lastTime = 1000, lastEnergy = 100, lastCharging = False, lastActive = True,
           lastEvent = ''''\<rparr> \<and>
   missedStandby exampleAfterFirst 2000 True '''' = None \<and>
   (1000::int) \<in> time ` set (energy_log exampleAfterFirst) \<and>
   (2000::int) \<notin> time ` set (energy_log exampleAfterFirst) - {1000} \<and>
   addOrUpdateEntry exampleAfterFirst 2000 100 False True '''' =
     (Inr Zero,
      exampleAfterFirst
        \<lparr>energy_log := [\<lparr>time = 2000, energy = 100, charging = False, active = True, event = ''''\<rparr>],
         lastSample := Some \<lparr>lastTime = 2000, lastEnergy = 100, lastCharging = False,
                             lastActive = True, lastEvent = ''''\<rparr>\<rparr>) \<and>
   \<not> (True \<and> '''' \<noteq> ''Start'' \<and> (60::int) * 1000 < 2000 - 1000) \<and>
   energy_log (recordAll (init (processStart []) 60)
                 [(1000, 100, False, True, ''''), (2000, 100, False, True, '''')]) =
     [\<lparr>time = 2000, energy = 100, charging = False, active = True, event = ''''\<rparr>]"
  using merge_idempotence [of exampleAfterFirst
      "\<lparr>lastTime = 1000, lastEnergy = 100, lastCharging = False, lastActive = True,
        lastEvent = ''''\<rparr>" 100 False True "''''" 2000 60 2000 1000]
  by (simp add: exampleAfterFirst_def missedStandby_def)

subsection \<open>The missed standby entry\<close>

text \<open>
  Claim C2. When the cache holds a sample, the call is for an active sample whose event
  is not \<^verbatim>\<open>"Start"\<close>, more than the timeout has passed since \<^verbatim>\<open>lastTime\<close>, and neither of the
  two new times is in the table yet, then the call appends two rows: the standby row at
  \<^verbatim>\<open>lastTime\<close> plus the timeout, with the cached energy and charging flag, inactive and
  without event, and then the row of the new sample. The cache then holds the new sample
  and the call returns the clock reading. Times are in milliseconds, so a timeout of \<open>T\<close>
  seconds is \<open>T * 1000\<close>.
\<close>

theorem gap_backfill:
  assumes "lastSample s = Some l"
    and "timeoutIntervalInSeconds s = Some timeout"
    and "ev \<noteq> ''Start''"
    and "timeout * 1000 < currentTime - lastTime l"
    and "lastTime l + timeout * 1000 \<notin> time ` set (energy_log s)"
    and "currentTime \<notin> time ` set (energy_log s)"
  shows "addOrUpdateEntry s currentTime e1 c1 True ev =
     (Inr (Time currentTime),
      s\<lparr>energy_log := energy_log s @
           [\<lparr>time = lastTime l + timeout * 1000, energy = lastEnergy l,
             charging = lastCharging l, active = False, event = ''''\<rparr>,
            \<lparr>time = currentTime, energy = e1, charging = c1, active = True, event = ev\<rparr>],
        lastSample := Some \<lparr>lastTime = currentTime, lastEnergy = e1, lastCharging = c1,
                             lastActive = True, lastEvent = ev\<rparr>\<rparr>)"
proof -
  let ?missed = "lastTime l + timeout * 1000"
  let ?s1 = "s\<lparr>energy_log := energy_log s @
            [\<lparr>time = ?missed, energy = lastEnergy l, charging = lastCharging l,
              active = False, event = ''''\<rparr>]\<rparr>"
  have m: "missedStandby s currentTime True ev = Some (l, ?missed)"
    using assms(1-4) by (simp add: missedStandby_Some)
  have a: "addEntry s ?missed (lastEnergy l) (lastCharging l) False '''' = Inr (True, ?s1)"
    using assms(5) by (rule addEntry_fresh)
  have "currentTime \<noteq> ?missed"
    using assms(4) by simp
  then have "currentTime \<notin> time ` set (energy_log ?s1)"
    using assms(6) by simp
  then have "createNewEntry ?s1 currentTime e1 c1 True ev =
     (Inr (Time currentTime),
      ?s1\<lparr>energy_log := energy_log ?s1 @
            [\<lparr>time = currentTime, energy = e1, charging = c1, active = True, event = ev\<rparr>],
        lastSample := Some \<lparr>lastTime = currentTime, lastEnergy = e1, lastCharging = c1,
                             lastActive = True, lastEvent = ev\<rparr>\<rparr>)"
    by (rule createNewEntry_fresh)
  then show ?thesis
    by (simp add: addOrUpdateEntry_def m a)
qed

text \<open>The instance of the specification: the cache at \<open>t0 = 1000\<close>, a timeout of 60 s,
  a call at \<open>t0 + 2T\<close>.\<close>

theorem gap_backfill_witness:
  "lastSample exampleAfterFirst =
     Some \<lparr>lastTime = 1000, lastEnergy = 100, lastCharging = False, lastActive = True,
           lastEvent = ''''\<rparr> \<and>
   timeoutIntervalInSeconds exampleAfterFirst = Some 60 \<and>
   ''Foo'' \<noteq> ''Start'' \<and> (60::int) * 1000 < (1000 + 2 * 60 * 1000) - 1000 \<and>
   (1000::int) + 60 * 1000 \<notin> time ` set (energy_log exampleAfterFirst) \<and>
   (1000::int) + 2 * 60 * 1000 \<notin> time ` set (energy_log exampleAfterFirst) \<and>
   addOrUpdateEntry exampleAfterFirst (1000 + 2 * 60 * 1000) 90 True True ''Foo'' =
     (Inr (Time 121000),
      exampleAfterFirst
        \<lparr>energy_log :=
           [\<lparr>time = 1000, energy = 100, charging = False, active = True, event = ''''\<rparr>,
            \<lparr>time = 61000, energy = 100, charging = False, active = False, event = ''''\<rparr>,
            \<lparr>time = 121000, energy = 90, charging = True, active = True, event = ''Foo''\<rparr>],
         lastSample := Some \<lparr>lastTime = 121000, lastEnergy = 90, lastCharging = True,
                             lastActive = True, lastEvent = ''Foo''\<rparr>\<rparr>)"
  using gap_backfill [of exampleAfterFirst
      "\<lparr>lastTime = 1000, lastEnergy = 100, lastCharging = False, lastActive = True,
        lastEvent = ''''\<rparr>" 60 "''Foo''" "1000 + 2 * 60 * 1000" 90 True]
  by (simp add: exampleAfterFirst_def)

subsection \<open>An update that affects no row\<close>

text \<open>
  Claim C3. The cache must stay as it is when a call persists nothing. It does not: after
  \<^verbatim>\<open>reset()\<close> has emptied the table, a call with the cached values finds no row to update,
  logs the failure, and still sets \<^verbatim>\<open>lastTime\<close> to the clock reading, because the \<^verbatim>\<open>return 0\<close>
  of line 82 leaves the callback only. The table stays empty.
\<close>

theorem failed_update_advances_cache:
  "exampleAfterFirst = snd (addOrUpdateEntry (init (processStart []) 60) 1000 100 False True '''') \<and>
   addOrUpdateEntry (reset exampleAfterFirst) 2000 100 False True '''' =
     (Inr Zero,
      \<lparr>energy_log = [],
       lastSample = Some \<lparr>lastTime = 2000, lastEnergy = 100, lastCharging = False,
                          lastActive = True, lastEvent = ''''\<rparr>,
       timeoutIntervalInSeconds = Some 60,
       console = [''Failed to update previous energy_log entry.'']\<rparr>) \<and>
   lastSample (snd (addOrUpdateEntry (reset exampleAfterFirst) 2000 100 False True ''''))
     \<noteq> lastSample (reset exampleAfterFirst)"
  by (simp add: ingestion_defs exampleAfterFirst_def)

subsection \<open>Unique timestamps\<close>

text \<open>
  Claim C9. Starting from an empty table, after any sequence of \<^verbatim>\<open>addOrUpdateEntry\<close> calls
  (whatever their clock readings, so in particular strictly increasing ones, and whatever
  the timeout) no two rows of the table have the same time: inserts, the update of the
  previous entry and the missed standby entry all keep the times distinct.
\<close>

theorem timestamps_unique:
  "distinct (map time (energy_log (recordAll (init (processStart []) timeout) calls)))"
  by (rule recordAll_distinct) (simp add: init_def processStart_def)

text \<open>
  With a positive timeout and strictly increasing clock readings no write is rejected:
  every call stores its sample, and the rows stay in strictly ascending time.
\<close>

lemma sorted_wrt_less_last:
  "sorted_wrt (<) (map f xs) \<Longrightarrow> x \<in> set xs \<Longrightarrow> (f x :: int) \<le> f (last xs)"
proof (induction xs)
  case Nil
  then show ?case by simp
next
  case (Cons a xs)
  show ?case
  proof (cases "xs = []")
    case True
    with Cons.prems show ?thesis by simp
  next
    case False
    then have "last xs \<in> set xs" by simp
    with Cons False show ?thesis by (auto simp: less_imp_le)
  qed
qed

lemma sorted_wrt_snoc:
  "sorted_wrt (<) (ys @ [v :: int]) = (sorted_wrt (<) ys \<and> (\<forall>y \<in> set ys. y < v))"
  by (auto simp: sorted_wrt_append)

lemma retime_last:
  assumes "sorted_wrt (<) (map time tbl)" "tbl \<noteq> []"
  shows "map (\<lambda>r. if time r = time (last tbl) then r\<lparr>time := new\<rparr> else r) tbl =
         butlast tbl @ [(last tbl)\<lparr>time := new\<rparr>]"
  using assms
proof (induction tbl rule: rev_induct)
  case Nil
  then show ?case by simp
next
  case (snoc x xs)
  then have "\<forall>y \<in> set xs. time y < time x"
    by (simp add: sorted_wrt_snoc)
  then have "map (\<lambda>r. if time r = time x then r\<lparr>time := new\<rparr> else r) xs = xs"
    by (intro map_idI) auto
  then show ?case by simp
qed

lemma upToDate_fresh:
  assumes "upToDate s t" "t < t'"
  shows "t' \<notin> time ` set (energy_log s)"
proof
  assume "t' \<in> time ` set (energy_log s)"
  then obtain r where r: "r \<in> set (energy_log s)" "time r = t'" by auto
  have "sorted_wrt (<) (map time (energy_log s))" "time (last (energy_log s)) = t"
    using assms(1) by (auto simp: upToDate_def split: option.splits)
  with r have "t' \<le> t"
    using sorted_wrt_less_last [of time "energy_log s" r] by simp
  with assms(2) show False by simp
qed

lemma upToDate_append:
  assumes "upToDate s t" "t < t'"
  shows "upToDate
     (s\<lparr>energy_log := energy_log s @ [\<lparr>time = t', energy = en, charging = ch, active = ac, event = ev\<rparr>],
        lastSample := Some \<lparr>lastTime = t', lastEnergy = en', lastCharging = ch',
                             lastActive = ac', lastEvent = ev'\<rparr>\<rparr>) t'"
proof -
  have s: "sorted_wrt (<) (map time (energy_log s))" "time (last (energy_log s)) = t"
    "console s = []"
    using assms(1) by (auto simp: upToDate_def split: option.splits)
  have "\<forall>y \<in> set (energy_log s). time y < t'"
    using sorted_wrt_less_last [OF s(1)] s(2) assms(2) by fastforce
  then show ?thesis
    using s by (simp add: upToDate_def sorted_wrt_snoc)
qed

lemma addOrUpdateEntry_upToDate:
  assumes u: "upToDate s t"
    and T: "timeoutIntervalInSeconds s = Some timeout" "0 < timeout"
    and lt: "t < currentTime"
  shows "upToDate (snd (addOrUpdateEntry s currentTime en ch ac ev)) currentTime \<and>
         timeoutIntervalInSeconds (snd (addOrUpdateEntry s currentTime en ch ac ev)) = Some timeout \<and>
         fst (addOrUpdateEntry s currentTime en ch ac ev) \<in> {Inr Zero, Inr (Time currentTime)}"
proof -
  from u obtain l where l: "lastSample s = Some l" "lastTime l = t"
    and ne: "energy_log s \<noteq> []" and lastrow: "time (last (energy_log s)) = t"
    and srt: "sorted_wrt (<) (map time (energy_log s))" and con: "console s = []"
    by (auto simp: upToDate_def split: option.splits)
  have fresh: "currentTime \<notin> time ` set (energy_log s)"
    using u lt by (rule upToDate_fresh)
  show ?thesis
  proof (cases "missedStandby s currentTime ac ev")
    case (Some a)
    then have gap: "timeout * 1000 < currentTime - t" and a: "a = (l, t + timeout * 1000)"
      using l T by (auto simp: missedStandby_def elapsed_exceeds split: if_splits)
    let ?m = "t + timeout * 1000"
    let ?s1 = "s\<lparr>energy_log := energy_log s @
            [\<lparr>time = ?m, energy = lastEnergy l, charging = lastCharging l,
              active = False, event = ''''\<rparr>]\<rparr>"
    have m: "t < ?m" "?m < currentTime"
      using T(2) gap by simp_all
    have mfresh: "?m \<notin> time ` set (energy_log s)"
      using u m(1) by (rule upToDate_fresh)
    have u1: "upToDate (?s1\<lparr>lastSample := Some \<lparr>lastTime = ?m, lastEnergy = lastEnergy l,
        lastCharging = lastCharging l, lastActive = lastActive l, lastEvent = lastEvent l\<rparr>\<rparr>) ?m"
      using upToDate_append [OF u m(1), where en = "lastEnergy l" and ch = "lastCharging l"
          and ac = False and ev = "''''" and en' = "lastEnergy l" and ch' = "lastCharging l"
          and ac' = "lastActive l" and ev' = "lastEvent l"]
      by simp
    have cfresh: "currentTime \<notin> time ` set (energy_log ?s1)"
      using upToDate_fresh [OF u1 m(2)] by simp
    have "upToDate (?s1\<lparr>energy_log := energy_log ?s1 @
            [\<lparr>time = currentTime, energy = en, charging = ch, active = ac, event = ev\<rparr>],
        lastSample := Some \<lparr>lastTime = currentTime, lastEnergy = en, lastCharging = ch,
                             lastActive = ac, lastEvent = ev\<rparr>\<rparr>) currentTime"
      using upToDate_append [OF u1 m(2), where en = en and ch = ch and ac = ac and ev = ev
          and en' = en and ch' = ch and ac' = ac and ev' = ev] by simp
    then show ?thesis
      using Some a mfresh cfresh T(1)
      by (simp add: addOrUpdateEntry_def addEntry_fresh createNewEntry_fresh)
  next
    case None
    show ?thesis
    proof (cases "sameAsLast s en ch ac ev")
      case None
      have "upToDate (s\<lparr>energy_log := energy_log s @
            [\<lparr>time = currentTime, energy = en, charging = ch, active = ac, event = ev\<rparr>],
        lastSample := Some \<lparr>lastTime = currentTime, lastEnergy = en, lastCharging = ch,
                             lastActive = ac, lastEvent = ev\<rparr>\<rparr>) currentTime"
        by (rule upToDate_append [OF u lt])
      then show ?thesis
        using None \<open>missedStandby s currentTime ac ev = None\<close> fresh T(1)
        by (simp add: addOrUpdateEntry_def createNewEntry_fresh)
    next
      case (Some l')
      then have l': "l' = l"
        using l by (simp add: sameAsLast_def split: if_splits)
      have hit: "lastTime l \<in> time ` set (energy_log s)"
        using ne lastrow l(2) by (metis image_eqI last_in_set)
      have free: "currentTime \<notin> time ` set (energy_log s) - {lastTime l}"
        using fresh by simp
      have tbl: "map (\<lambda>r. if time r = lastTime l then r\<lparr>time := currentTime\<rparr> else r) (energy_log s)
          = butlast (energy_log s) @ [(last (energy_log s))\<lparr>time := currentTime\<rparr>]"
        using retime_last [OF srt ne, of currentTime] by (simp add: l(2) lastrow)
      have "sorted_wrt (<) (map time (butlast (energy_log s) @ [last (energy_log s)]))"
        using srt ne by simp
      then have "sorted_wrt (<) (map time (butlast (energy_log s)))"
        and "\<forall>y \<in> set (butlast (energy_log s)). time y < t"
        by (simp_all add: sorted_wrt_snoc lastrow)
      then have "sorted_wrt (<)
          (map time (butlast (energy_log s) @ [(last (energy_log s))\<lparr>time := currentTime\<rparr>]))"
        using lt by (fastforce simp add: sorted_wrt_snoc)
      then have "upToDate
          (s\<lparr>energy_log := butlast (energy_log s) @ [(last (energy_log s))\<lparr>time := currentTime\<rparr>],
             lastSample := Some (l\<lparr>lastTime := currentTime\<rparr>)\<rparr>) currentTime"
        using con by (simp add: upToDate_def)
      then show ?thesis
        using Some l' \<open>missedStandby s currentTime ac ev = None\<close> T(1)
        by (simp add: addOrUpdateEntry_def updatePreviousEntry_hit [OF hit free] tbl)
    qed
  qed
qed

lemma recordAll_upToDate:
  assumes "upToDate s t" "timeoutIntervalInSeconds s = Some timeout" "0 < timeout"
    and "sorted_wrt (<) (t # map fst calls)"
  shows "upToDate (recordAll s calls) (last (t # map fst calls))"
  using assms
proof (induction calls arbitrary: s t)
  case Nil
  then show ?case by simp
next
  case (Cons c calls)
  obtain currentTime en ch ac ev where c: "c = (currentTime, en, ch, ac, ev)"
    by (cases c)
  have lt: "t < currentTime" and rest: "sorted_wrt (<) (currentTime # map fst calls)"
    using Cons.prems(4) by (simp_all add: c)
  note step = addOrUpdateEntry_upToDate [OF Cons.prems(1-3) lt, of en ch ac ev]
  have "upToDate (recordAll (snd (addOrUpdateEntry s currentTime en ch ac ev)) calls)
          (last (currentTime # map fst calls))"
    using step rest Cons.prems(3) by (intro Cons.IH) simp_all
  then show ?case
    by (simp add: c)
qed

lemma first_call_upToDate:
  "upToDate (snd (addOrUpdateEntry (init (processStart []) timeout) currentTime en ch ac ev)) currentTime
   \<and> timeoutIntervalInSeconds
        (snd (addOrUpdateEntry (init (processStart []) timeout) currentTime en ch ac ev)) = Some timeout"
  by (simp add: ingestion_defs upToDate_def)

lemma increasing_calls_all_stored:
  assumes "0 < timeout" "sorted_wrt (<) (map fst calls)" "calls \<noteq> []"
  shows "upToDate (recordAll (init (processStart []) timeout) calls) (fst (last calls))"
proof -
  obtain c rest where calls: "calls = c # rest"
    using assms(3) by (cases calls) auto
  obtain currentTime en ch ac ev where c: "c = (currentTime, en, ch, ac, ev)"
    by (cases c)
  have run: "upToDate (recordAll (snd (addOrUpdateEntry (init (processStart []) timeout) currentTime en ch ac ev)) rest)
          (last (currentTime # map fst rest))"
    using first_call_upToDate [of timeout currentTime en ch ac ev] assms(1,2)
    by (intro recordAll_upToDate [where timeout = timeout]) (simp_all add: calls c)
  have e: "last (currentTime # map fst rest) = fst (last calls)"
    by (cases "rest = []") (simp_all add: calls c last_map)
  have r: "recordAll (init (processStart []) timeout) calls =
      recordAll (snd (addOrUpdateEntry (init (processStart []) timeout) currentTime en ch ac ev)) rest"
    by (simp add: calls c)
  show ?thesis
    unfolding r e [symmetric] by (rule run)
qed

subsection \<open>The result of addEntry\<close>

text \<open>
  Claim C10. Whenever \<^verbatim>\<open>addEntry\<close> returns, it returns \<^verbatim>\<open>true\<close>: the \<^verbatim>\<open>false\<close> of its callback
  is dropped by the transaction. So \<^verbatim>\<open>addOrUpdateEntry\<close> never takes one of its two
  branches after \<^verbatim>\<open>!addEntry(...)\<close>: neither of their messages is written to the console
  (the only line a call can add is the one of the update callback), and a result \<^verbatim>\<open>0\<close>
  comes from the branch that updates the previous entry and from nowhere else.
\<close>

theorem addEntry_result_discarded:
  "(addEntry s t en ch ac ev = Inr (added, s') \<longrightarrow> added) \<and>
   (console (snd (addOrUpdateEntry s currentTime en ch ac ev)) = console s \<or>
    console (snd (addOrUpdateEntry s currentTime en ch ac ev)) =
      console s @ [''Failed to update previous energy_log entry.'']) \<and>
   (fst (addOrUpdateEntry s currentTime en ch ac ev) = Inr Zero \<longrightarrow>
      missedStandby s currentTime ac ev = None \<and> sameAsLast s en ch ac ev \<noteq> None)"
proof (intro conjI impI)
  assume "addEntry s t en ch ac ev = Inr (added, s')"
  then show added by (rule addEntry_added)
next
  show "console (snd (addOrUpdateEntry s currentTime en ch ac ev)) = console s \<or>
    console (snd (addOrUpdateEntry s currentTime en ch ac ev)) =
      console s @ [''Failed to update previous energy_log entry.'']"
  proof (cases "missedStandby s currentTime ac ev")
    case None
    then show ?thesis
      using updatePreviousEntry_console
      by (simp add: addOrUpdateEntry_def createNewEntry_console split: option.splits)
  next
    case (Some a)
    obtain l missedTime where a: "a = (l, missedTime)" by (cases a)
    show ?thesis
      using Some a
      by (cases "missedTime \<in> time ` set (energy_log s)")
         (simp_all add: addOrUpdateEntry_def addEntry_clash addEntry_fresh createNewEntry_console)
  qed
next
  assume z: "fst (addOrUpdateEntry s currentTime en ch ac ev) = Inr Zero"
  show "missedStandby s currentTime ac ev = None"
  proof (cases "missedStandby s currentTime ac ev")
    case None
    then show ?thesis .
  next
    case (Some a)
    obtain l missedTime where a: "a = (l, missedTime)" by (cases a)
    show ?thesis
      using Some a z createNewEntry_not_Zero
      by (cases "missedTime \<in> time ` set (energy_log s)")
         (simp_all add: addOrUpdateEntry_def addEntry_clash addEntry_fresh)
  qed
next
  assume z: "fst (addOrUpdateEntry s currentTime en ch ac ev) = Inr Zero"
  show "sameAsLast s en ch ac ev \<noteq> None"
  proof
    assume n: "sameAsLast s en ch ac ev = None"
    show False
    proof (cases "missedStandby s currentTime ac ev")
      case None
      with n z createNewEntry_not_Zero show False
        by (simp add: addOrUpdateEntry_def)
    next
      case (Some a)
      obtain l missedTime where a: "a = (l, missedTime)" by (cases a)
      show False
        using Some a z createNewEntry_not_Zero
        by (cases "missedTime \<in> time ` set (energy_log s)")
           (simp_all add: addOrUpdateEntry_def addEntry_clash addEntry_fresh)
    qed
  qed
qed


theorem addEntry_result_discarded_witness:
  "addEntry exampleAfterFirst 2000 100 False True '''' =
     Inr (True, exampleAfterFirst\<lparr>energy_log := energy_log exampleAfterFirst @
        [\<lparr>time = 2000, energy = 100, charging = False, active = True, event = ''''\<rparr>]\<rparr>) \<and>
   fst (addOrUpdateEntry exampleAfterFirst 2000 100 False True '''') = Inr Zero \<and>
   missedStandby exampleAfterFirst 2000 True '''' = None \<and>
   sameAsLast exampleAfterFirst 100 False True '''' \<noteq> None"
  using addEntry_result_discarded [of exampleAfterFirst 2000 100 False True "''''" True
      "exampleAfterFirst\<lparr>energy_log := energy_log exampleAfterFirst @
        [\<lparr>time = 2000, energy = 100, charging = False, active = True, event = ''''\<rparr>]\<rparr>" 2000]
  by (simp add: ingestion_defs exampleAfterFirst_def)

section \<open>Queries\<close>


text \<open>Reading a time back and adding the zone offset gives the time that was written.\<close>

lemma convertItemToEntry_id: "convertItemToEntry tzo item = item"
  by (simp add: convertItemToEntry_def newDate_def)

lemma map_convertItemToEntry: "map (convertItemToEntry tzo) rows = rows"
  by (simp add: convertItemToEntry_id map_idI)


subsection \<open>A window with fewer than two rows\<close>

text \<open>
  Claim C4, as the code has it. When fewer than two rows lie strictly inside the window,
  \<^verbatim>\<open>getLatestEntries\<close> returns the fetched rows as they are, without an entry at either
  border (line 142 asks for more than one entry). So for the table with a row at day 0
  (energy 100) and a row at day 100 (energy 0) and the window from day 25 to day 75, which
  holds neither row, the result is empty.
\<close>

theorem window_few_rows:
  "length (sqlSelectBetween tbl (currentTime - (dayCount + dayOffset) * msPerDay)
             (currentTime - dayOffset * msPerDay)) \<le> 1 \<Longrightarrow>
   getLatestEntries tzo tbl currentTime dayCount dayOffset =
     sqlSelectBetween tbl (currentTime - (dayCount + dayOffset) * msPerDay)
       (currentTime - dayOffset * msPerDay)"
  by (simp add: getLatestEntries_def Let_def map_convertItemToEntry)

theorem window_few_rows_witness:
  "length (sqlSelectBetween exampleTwoRows (75 * msPerDay - (50 + 0) * msPerDay)
             (75 * msPerDay - 0 * msPerDay)) \<le> 1 \<and>
   getLatestEntries 0 exampleTwoRows (75 * msPerDay) 50 0 = []"
  using window_few_rows [of exampleTwoRows "75 * msPerDay" 50 0 0]
  by (simp add: sqlSelectBetween_def exampleTwoRows_def msPerDay_def)

text \<open>
  Claim C4 as stated expects two interpolated rows, (25, 75) and (75, 25), from that table
  and window. The result has no row.
\<close>

theorem window_interpolation_counterexample:
  "getLatestEntries 0 exampleTwoRows (75 * msPerDay) 50 0 = [] \<and>
   length (getLatestEntries 0 exampleTwoRows (75 * msPerDay) 50 0) \<noteq> 2"
  by (simp add: getLatestEntries_def sqlSelectBetween_def exampleTwoRows_def msPerDay_def)

subsection \<open>The entry at the start border\<close>

text \<open>
  Claim C5. The entry before the start must be left out when the first row inside the
  window has the event \<^verbatim>\<open>"Start"\<close>. Line 170 tests \<^verbatim>\<open>startEntry !== "Start"\<close>, the entry
  instead of \<^verbatim>\<open>startEvent\<close>, which is always true: with the rows of day 30 (\<^verbatim>\<open>"Start"\<close>) and
  day 50 inside the window from day 25 to day 75 and a row at day 5 before it, the result
  begins with an interpolated entry at day 25.
\<close>

theorem start_border_ignores_event:
  "sqlSelectBetween exampleStartRows (25 * msPerDay) (75 * msPerDay) =
     [\<lparr>time = 30 * msPerDay, energy = 80, charging = False, active = True, event = ''Start''\<rparr>,
      \<lparr>time = 50 * msPerDay, energy = 60, charging = False, active = True, event = ''''\<rparr>] \<and>
   getLatestEntries 0 exampleStartRows (75 * msPerDay) 50 0 =
     [\<lparr>time = 25 * msPerDay, energy = 84, charging = False, active = False, event = ''''\<rparr>,
      \<lparr>time = 30 * msPerDay, energy = 80, charging = False, active = True, event = ''Start''\<rparr>,
      \<lparr>time = 50 * msPerDay, energy = 60, charging = False, active = True, event = ''''\<rparr>]"
  by (simp add: getLatestEntries_def sqlSelectBetween_def sqlSelectAfter_def sqlSelectBefore_def
      addAfterEnd_def addBeforeStart_def convertItemToEntry_def newDate_def
      exampleStartRows_def msPerDay_def)






subsection \<open>The entry at the end border\<close>



lemma keepFirstOfRun_Cons: "keepFirstOfRun (r # rs) = r # tl (keepFirstOfRun (r # rs))"
  by (induction rs arbitrary: r) auto

lemma keepFirstOfRun_subset: "set (keepFirstOfRun rs) \<subseteq> set rs"
  by (induction rs rule: keepFirstOfRun.induct) auto

lemma keepFirstOfRun_sorted:
  "sorted (map time rs) \<Longrightarrow> sorted (map time (keepFirstOfRun rs))"
proof (induction rs rule: keepFirstOfRun.induct)
  case (3 r r' rs)
  show ?case
  proof (cases "event r' = event r")
    case True
    with 3 show ?thesis by simp
  next
    case False
    have "set (keepFirstOfRun (r' # rs)) \<subseteq> set (r' # rs)"
      by (rule keepFirstOfRun_subset)
    with 3 False show ?thesis by auto
  qed
qed simp_all

lemma keepFirstOfRun_events:
  "map event (keepFirstOfRun rs) = remdups_adj (map event rs)"
  by (induction rs rule: keepFirstOfRun.induct) auto

lemma keepFirstOfRun_map_Cons:
  "map f (keepFirstOfRun (r # rs)) = f r # map f (tl (keepFirstOfRun (r # rs)))"
  by (subst keepFirstOfRun_Cons) simp

lemma eventsLoop_keep:
  "event item \<noteq> event r \<Longrightarrow>
   eventsLoop tzo (item # items) (entries, Some (event r)) =
     eventsLoop tzo items (entries @ [timelineEntry item], Some (event item))"
  by (simp add: Let_def timelineEntry_def newDate_def)

lemma eventsLoop_first:
  "eventsLoop tzo (item # items) (entries, None) =
     eventsLoop tzo items (entries @ [timelineEntry item], Some (event item))"
  by (simp add: Let_def timelineEntry_def newDate_def)

lemma eventsLoop_skip:
  "event item = event r \<Longrightarrow>
   eventsLoop tzo (item # items) (entries, Some (event r)) =
     eventsLoop tzo items (entries, Some (event r))"
  by (simp add: Let_def)

lemma eventsLoop_Some:
  "fst (eventsLoop tzo items (entries, Some (event r))) =
     entries @ map timelineEntry (tl (keepFirstOfRun (r # items)))"
proof (induction items arbitrary: entries r)
  case Nil
  then show ?case by simp
next
  case (Cons item items)
  show ?case
  proof (cases "event item = event r")
    case True
    then have "keepFirstOfRun (r # item # items) = keepFirstOfRun (r # items)"
      by simp
    then show ?thesis
      by (simp only: eventsLoop_skip [OF True] Cons.IH)
  next
    case False
    have "fst (eventsLoop tzo (item # items) (entries, Some (event r))) =
        (entries @ [timelineEntry item]) @ map timelineEntry (tl (keepFirstOfRun (item # items)))"
      by (simp only: eventsLoop_keep [OF False] Cons.IH)
    also have "\<dots> = entries @ map timelineEntry (keepFirstOfRun (item # items))"
      by (simp add: keepFirstOfRun_map_Cons [of timelineEntry item items])
    also have "keepFirstOfRun (item # items) = tl (keepFirstOfRun (r # item # items))"
      using False by simp
    finally show ?thesis .
  qed
qed

lemma eventsLoop_None:
  "fst (eventsLoop tzo items ([], None)) = map timelineEntry (keepFirstOfRun items)"
proof (cases items)
  case Nil
  then show ?thesis by simp
next
  case (Cons item rest)
  have "fst (eventsLoop tzo (item # rest) ([], None)) =
      ([] @ [timelineEntry item]) @ map timelineEntry (tl (keepFirstOfRun (item # rest)))"
    by (simp only: eventsLoop_first eventsLoop_Some)
  also have "\<dots> = map timelineEntry (keepFirstOfRun (item # rest))"
    by (simp add: keepFirstOfRun_map_Cons [of timelineEntry item rest])
  finally show ?thesis
    by (simp only: Cons)
qed

lemma sqlSelectEvents_set:
  "r \<in> set (sqlSelectEvents tbl startTime) \<Longrightarrow>
   r \<in> set tbl \<and> startTime < time r \<and> event r \<noteq> '''' \<and> event r \<noteq> ''Stop''"
proof -
  assume "r \<in> set (sqlSelectEvents tbl startTime)"
  then have "r \<in> set (sort_key time
       (filter (\<lambda>r. time r > startTime \<and> event r \<noteq> '''' \<and> event r \<noteq> ''Stop'') tbl))"
    unfolding sqlSelectEvents_def by (rule in_set_takeD)
  then show ?thesis by simp
qed

lemma sqlSelectEvents_sorted: "sorted (map time (sqlSelectEvents tbl startTime))"
  by (simp add: sqlSelectEvents_def flip: take_map)

lemma sqlSelectEvents_length: "length (sqlSelectEvents tbl startTime) \<le> 400"
  by (simp add: sqlSelectEvents_def)

lemma entry_of_row [simp]:
  "entryTime (timelineEntry r) = time r" "entryEvent (timelineEntry r) = event r"
  by (simp_all add: entryTime_def entryEvent_def timelineEntry_def)

subsection \<open>The event timeline\<close>

text \<open>
  Claim C7, as the code has it. \<^verbatim>\<open>getLatestEvents\<close> considers the first 400 rows, in ascending
  time, whose event is neither empty nor \<^verbatim>\<open>"Stop"\<close> and whose time is later than
  \<open>now - dayCount\<close>; of each run of consecutive rows with the same event it returns the
  first. So every entry has a non-empty event other than \<^verbatim>\<open>"Stop"\<close> and a time later than
  \<open>now - dayCount\<close>, the entries are ascending in time, and their events are those of the
  rows with adjacent repetitions removed. The time of an entry is not bounded by \<open>now\<close>.
\<close>

theorem event_timeline:
  assumes startTime: "startTime = currentTime - dayCount * msPerDay"
    and rows: "rows = sqlSelectEvents tbl startTime"
  shows "getLatestEvents tzo tbl currentTime dayCount = map timelineEntry (keepFirstOfRun rows)
    \<and> map entryEvent (getLatestEvents tzo tbl currentTime dayCount) = remdups_adj (map event rows)
    \<and> sorted (map entryTime (getLatestEvents tzo tbl currentTime dayCount))
    \<and> rows = take 400 (sort_key time
         (filter (\<lambda>r. startTime < time r \<and> event r \<noteq> '''' \<and> event r \<noteq> ''Stop'') tbl))
    \<and> length rows \<le> 400
    \<and> (\<forall>e \<in> set (getLatestEvents tzo tbl currentTime dayCount).
          entryEvent e \<noteq> '''' \<and> entryEvent e \<noteq> ''Stop'' \<and> startTime < entryTime e)"
proof -
  have result: "getLatestEvents tzo tbl currentTime dayCount = map timelineEntry (keepFirstOfRun rows)"
    by (simp add: getLatestEvents_def Let_def eventsLoop_None startTime rows)
  have "map entryEvent (map timelineEntry (keepFirstOfRun rows)) = remdups_adj (map event rows)"
    by (simp add: comp_def keepFirstOfRun_events [symmetric])
  then have events:
    "map entryEvent (getLatestEvents tzo tbl currentTime dayCount) = remdups_adj (map event rows)"
    by (simp only: result)
  have "sorted (map time (keepFirstOfRun rows))"
    unfolding rows by (rule keepFirstOfRun_sorted) (rule sqlSelectEvents_sorted)
  then have "sorted (map entryTime (map timelineEntry (keepFirstOfRun rows)))"
    by (simp add: comp_def)
  then have ascending: "sorted (map entryTime (getLatestEvents tzo tbl currentTime dayCount))"
    by (simp only: result)
  have cap: "rows = take 400 (sort_key time
         (filter (\<lambda>r. startTime < time r \<and> event r \<noteq> '''' \<and> event r \<noteq> ''Stop'') tbl))"
    by (simp add: rows sqlSelectEvents_def)
  have len: "length rows \<le> 400"
    by (simp add: rows sqlSelectEvents_length)
  have each: "entryEvent e \<noteq> '''' \<and> entryEvent e \<noteq> ''Stop'' \<and> startTime < entryTime e"
    if "e \<in> set (getLatestEvents tzo tbl currentTime dayCount)" for e
  proof -
    from that obtain r where r: "r \<in> set (keepFirstOfRun rows)" and e: "e = timelineEntry r"
      unfolding result by auto
    from r have "r \<in> set rows"
      using keepFirstOfRun_subset by blast
    then have "r \<in> set tbl \<and> startTime < time r \<and> event r \<noteq> '''' \<and> event r \<noteq> ''Stop''"
      unfolding rows by (rule sqlSelectEvents_set)
    then show ?thesis
      by (simp add: e)
  qed
  show ?thesis
    using result events ascending cap len each by blast
qed

text \<open>The rows with the events Charging, Charging, Full, Charging give three entries.\<close>

theorem event_timeline_witness:
  "sqlSelectEvents exampleEventRows (5000 - 1 * msPerDay) = exampleEventRows \<and>
   map event exampleEventRows = [''Charging'', ''Charging'', ''Full'', ''Charging''] \<and>
   getLatestEvents 0 exampleEventRows 5000 1 =
     [(1000, 50, True, ''Charging''), (3000, 70, True, ''Full''), (4000, 65, True, ''Charging'')]"
  using event_timeline [of "5000 - 1 * msPerDay" 5000 1 exampleEventRows exampleEventRows 0]
  by (simp add: sqlSelectEvents_def exampleEventRows_def msPerDay_def timelineEntry_def)

text \<open>
  Claim C7 as stated has every entry within \<open>[now - dayCount, now]\<close>. The statement of line
  214 has no upper bound: a row of day 10 is returned at day 2.
\<close>

theorem event_timeline_counterexample:
  "getLatestEvents 0 exampleFutureEvent (2 * msPerDay) 1 = [(10 * msPerDay, 70, True, ''Full'')] \<and>
   \<not> 10 * msPerDay \<le> 2 * msPerDay"
  by (simp add: getLatestEvents_def sqlSelectEvents_def exampleFutureEvent_def msPerDay_def
      newDate_def Let_def)

subsection \<open>The exponent of a number\<close>

text \<open>\<open>exponentOf\<close> gives the power of two at or below a positive number.\<close>

lemma bitLength_bounds:
  "0 < n \<Longrightarrow> 0 < bitLength n \<and> 2 ^ nat (bitLength n - 1) \<le> n \<and> n < 2 ^ nat (bitLength n)"
proof (induction n rule: bitLength.induct)
  case (1 n)
  show ?case
  proof (cases "n = 1")
    case True
    then show ?thesis
      by (simp add: bitLength.simps [of 1] bitLength.simps [of 0])
  next
    case False
    with "1.prems" have half: "0 < n div 2" by simp
    have ih: "0 < bitLength (n div 2)"
      "2 ^ nat (bitLength (n div 2) - 1) \<le> n div 2"
      "n div 2 < 2 ^ nat (bitLength (n div 2))"
      using "1.IH" "1.prems" half by simp_all
    have b: "bitLength n = 1 + bitLength (n div 2)"
      using "1.prems" by (simp add: bitLength.simps [of n])
    have n1: "nat (bitLength n - 1) = Suc (nat (bitLength (n div 2) - 1))"
      using ih(1) b by simp
    have n2: "nat (bitLength n) = Suc (nat (bitLength (n div 2)))"
      using ih(1) b by simp
    have lo: "2 * (n div 2) \<le> n" by simp
    have hi: "n < 2 * (n div 2 + 1)" by simp
    have "n div 2 + 1 \<le> 2 ^ nat (bitLength (n div 2))"
      using ih(3) by simp
    then have "n < 2 * 2 ^ nat (bitLength (n div 2))"
      using hi by linarith
    moreover have "2 * 2 ^ nat (bitLength (n div 2) - 1) \<le> n"
      using ih(2) lo by linarith
    moreover have "0 < bitLength n"
      using b ih(1) by simp
    ultimately show ?thesis
      by (simp only: n1 n2 power_Suc)
  qed
qed

lemma pow2_nat: "0 \<le> e \<Longrightarrow> pow2 e = 2 ^ nat e"
  by (simp add: pow2_def)

lemma pow2_neg: "0 \<le> b \<Longrightarrow> pow2 (- b) = 1 / 2 ^ nat b"
  by (simp add: pow2_def)

lemma exponentOf_bounds:
  assumes "0 < x"
  shows "pow2 (exponentOf x) \<le> x \<and> x < pow2 (exponentOf x + 1)"
proof (cases "1 \<le> x")
  case True
  let ?n = "\<lfloor>x\<rfloor>"
  have n: "0 < ?n" using True by simp
  note b = bitLength_bounds [OF n]
  have e: "exponentOf x = bitLength ?n - 1"
    using True by (simp add: exponentOf_def)
  have "(of_int (2 ^ nat (bitLength ?n - 1)) :: rat) \<le> of_int ?n"
    using b by (simp only: of_int_le_iff)
  also have "\<dots> \<le> x" by simp
  finally have lo: "pow2 (exponentOf x) \<le> x"
    using b by (simp add: e pow2_nat)
  have "?n + 1 \<le> 2 ^ nat (bitLength ?n)"
    using b by simp
  then have "(of_int (?n + 1) :: rat) \<le> of_int (2 ^ nat (bitLength ?n))"
    by (simp only: of_int_le_iff)
  moreover have "x < of_int (?n + 1)"
    by linarith
  ultimately have "x < of_int (2 ^ nat (bitLength ?n))"
    by linarith
  then have hi: "x < pow2 (exponentOf x + 1)"
    using b by (simp add: e pow2_nat)
  from lo hi show ?thesis ..
next
  case False
  then have x1: "x < 1" by simp
  let ?k = "\<lceil>1 / x\<rceil> - 1"
  have inv: "1 < 1 / x"
    using assms x1 by simp
  then have k: "0 < ?k"
    by linarith
  note b = bitLength_bounds [OF k]
  have e: "exponentOf x = - bitLength ?k"
    using False by (simp add: exponentOf_def)
  have "\<lceil>1 / x\<rceil> \<le> 2 ^ nat (bitLength ?k)"
    using b by simp
  then have "(of_int \<lceil>1 / x\<rceil> :: rat) \<le> of_int (2 ^ nat (bitLength ?k))"
    by (simp only: of_int_le_iff)
  moreover have "1 / x \<le> of_int \<lceil>1 / x\<rceil>"
    by (rule le_of_int_ceiling)
  ultimately have "1 / x \<le> of_int (2 ^ nat (bitLength ?k))"
    by (rule order_trans [rotated])
  then have "1 / x \<le> 2 ^ nat (bitLength ?k)"
    by simp
  then have "1 \<le> 2 ^ nat (bitLength ?k) * x"
    using assms by (simp add: pos_divide_le_eq)
  then have lo: "pow2 (exponentOf x) \<le> x"
    using b by (simp add: e pow2_neg pos_divide_le_eq mult.commute)
  have "(of_int (2 ^ nat (bitLength ?k - 1)) :: rat) \<le> of_int ?k"
    using b by (simp only: of_int_le_iff)
  moreover have "of_int ?k < 1 / x"
    by linarith
  ultimately have "2 ^ nat (bitLength ?k - 1) < 1 / x"
    by simp
  then have up: "2 ^ nat (bitLength ?k - 1) * x < 1"
    using assms by (simp add: pos_less_divide_eq)
  have hi: "x < pow2 (exponentOf x + 1)"
  proof (cases "bitLength ?k = 1")
    case True
    then show ?thesis using x1 by (simp add: e pow2_def)
  next
    case False
    with b have "1 < bitLength ?k" by simp
    then have "pow2 (exponentOf x + 1) = 1 / 2 ^ nat (bitLength ?k - 1)"
      using pow2_neg [of "bitLength ?k - 1"] by (simp add: e)
    then show ?thesis
      using up by (simp add: pos_less_divide_eq mult.commute)
  qed
  from lo hi show ?thesis ..
qed

subsection \<open>Evaluating the arithmetic\<close>

text \<open>Rules that let the simplifier compute \<open>toDouble\<close> on numerals, and some doubles.\<close>

lemma bitLength_numeral:
  "bitLength 0 = 0" "bitLength 1 = 1"
  "bitLength (numeral (Num.Bit0 n)) = 1 + bitLength (numeral n)"
  "bitLength (numeral (Num.Bit1 n)) = 1 + bitLength (numeral n)"
proof -
  show "bitLength 0 = 0" by (simp add: bitLength.simps)
  show "bitLength 1 = 1" by (simp add: bitLength.simps [of 1] bitLength.simps [of 0])
  have "numeral (Num.Bit0 n) div (2::int) = numeral n" by simp
  then show "bitLength (numeral (Num.Bit0 n)) = 1 + bitLength (numeral n)"
    by (simp add: bitLength.simps [of "numeral (Num.Bit0 n)"])
  have "numeral (Num.Bit1 n) div (2::int) = numeral n" by simp
  then show "bitLength (numeral (Num.Bit1 n)) = 1 + bitLength (numeral n)"
    by (simp add: bitLength.simps [of "numeral (Num.Bit1 n)"])
qed

lemma floor_rat_numeral:
  "\<lfloor>(numeral a :: rat) / numeral b\<rfloor> = numeral a div numeral b"
  by (metis floor_divide_of_int_eq of_int_numeral)

lemma ceiling_rat_numeral:
  "\<lceil>(numeral a :: rat) / numeral b\<rceil> = - (- numeral a div numeral b)"
proof -
  have "\<lceil>(numeral a :: rat) / numeral b\<rceil> = - \<lfloor>(of_int (- numeral a) :: rat) / of_int (numeral b)\<rfloor>"
    by (simp add: ceiling_def)
  also have "\<dots> = - (- numeral a div numeral b)"
    by (simp only: floor_divide_of_int_eq)
  finally show ?thesis .
qed

lemma floor_rat_one: "\<lfloor>(1 :: rat) / numeral b\<rfloor> = 1 div numeral b"
  by (metis floor_divide_of_int_eq of_int_numeral of_int_1)

lemma ceiling_rat_one: "\<lceil>(1 :: rat) / numeral b\<rceil> = - (- 1 div numeral b)"
proof -
  have "\<lceil>(1 :: rat) / numeral b\<rceil> = - \<lfloor>(of_int (- 1) :: rat) / of_int (numeral b)\<rfloor>"
    by (simp add: ceiling_def)
  also have "\<dots> = - (- 1 div numeral b)"
    by (simp only: floor_divide_of_int_eq)
  finally show ?thesis .
qed

lemmas double_defs = toDouble_def exponentOf_def pow2_def roundHalfEven_def Let_def
  bitLength_numeral floor_rat_numeral ceiling_rat_numeral floor_rat_one ceiling_rat_one

lemma toDouble_examples:
  "toDouble 1 = Num 1"
  "toDouble (1 / 10) = Num (3602879701896397 / 36028797018963968)"
  "toDouble (896 / 100) = Num (1261007895663739 / 140737488355328)"
  "toDouble 9007199254740993 = Num 9007199254740992"
  "toDouble (- 7 / 2) = Num (- 7 / 2)"
  "toDouble (2 ^ 1024 - 2 ^ 970) = PlusInfinity"
  "toDouble (2 ^ 1024 - 2 ^ 970 - 1) = Num (2 ^ 1024 - 2 ^ 971)"
  "toDouble (1 / 2 ^ 1075) = Num 0"
  by (simp_all add: double_defs)

lemma countedPairs_Cons:
  "countedPairs (p # q # rest) =
     (if jsLessEq (toDouble (energy q)) (toDouble (energy p)) \<and> event p \<noteq> ''Stop''
      then [(p, q)] else []) @ countedPairs (q # rest)"
  by (simp add: countedPairs_def)

lemma countedPairs_short: "countedPairs [] = []" "countedPairs [p] = []"
  by (simp_all add: countedPairs_def)

lemma newDate_diff: "newDate tzo a - newDate tzo b = a - b"
  by (simp add: newDate_def)

lemma powerLoop_spec:
  "powerLoop tzo items (toDouble (energy p), newDate tzo (time p), event p) (energySum, duration) =
     (foldl (\<lambda>acc (prev, cur). jsAdd acc (jsSub (toDouble (energy prev)) (toDouble (energy cur))))
        energySum (countedPairs (p # items)),
      foldl (\<lambda>acc (prev, cur). jsAdd acc (toDouble (of_int (time cur - time prev)))) duration
        (countedPairs (p # items)))"
proof (induction items arbitrary: p energySum duration)
  case Nil
  then show ?case by (simp add: countedPairs_short)
next
  case (Cons q items)
  show ?case
    by (simp add: Let_def Cons.IH countedPairs_Cons newDate_diff)
qed

lemma getAveragePower_spec:
  "getAveragePower tzo tbl currentTime dayCount =
     specAveragePower (sqlSelectDischarging tbl (currentTime - dayCount * msPerDay))"
proof (cases "sqlSelectDischarging tbl (currentTime - dayCount * msPerDay)")
  case Nil
  then show ?thesis
    by (simp add: getAveragePower_def specAveragePower_def specSum_def countedPairs_short)
next
  case (Cons first others)
  show ?thesis
  proof (cases others)
    case Nil
    with Cons show ?thesis
      by (simp add: getAveragePower_def specAveragePower_def specSum_def countedPairs_short)
  next
    case (Cons second rest)
    with \<open>sqlSelectDischarging tbl (currentTime - dayCount * msPerDay) = first # others\<close>
    show ?thesis
      by (simp add: getAveragePower_def specAveragePower_def specSum_def specDuration_def
          powerLoop_spec)
  qed
qed

lemma sqlSelectDischarging_set:
  "r \<in> set (sqlSelectDischarging tbl startTime) \<Longrightarrow>
   r \<in> set tbl \<and> startTime < time r \<and> \<not> charging r"
proof -
  assume "r \<in> set (sqlSelectDischarging tbl startTime)"
  then have "r \<in> set (sort_key time
       (filter (\<lambda>r. time r > startTime \<and> charging r = False) tbl))"
    unfolding sqlSelectDischarging_def by (rule in_set_takeD)
  then show ?thesis by simp
qed

lemma sqlSelectDischarging_sorted: "sorted (map time (sqlSelectDischarging tbl startTime))"
  by (simp add: sqlSelectDischarging_def flip: take_map)

lemma sqlSelectDischarging_length: "length (sqlSelectDischarging tbl startTime) \<le> 1000"
  by (simp add: sqlSelectDischarging_def)

lemma sqlSelectDischarging_all_charging:
  "\<forall>r \<in> set tbl. charging r \<Longrightarrow> sqlSelectDischarging tbl startTime = []"
  by (simp add: sqlSelectDischarging_def filter_empty_conv)

lemma specAveragePower_short: "length rows < 2 \<Longrightarrow> specAveragePower rows = Num 0"
proof (cases rows)
  case Nil
  then show ?thesis by (simp add: specAveragePower_def specSum_def countedPairs_short)
next
  case (Cons p rest)
  assume "length rows < 2"
  with Cons have "rows = [p]" by simp
  then show ?thesis by (simp add: specAveragePower_def specSum_def countedPairs_short)
qed

subsection \<open>The average power\<close>

text \<open>
  Claim C8, as the code has it. \<^verbatim>\<open>getAveragePower\<close> considers the first 1000 rows, in
  ascending time, that are not charging and whose time is later than \<open>now - dayCount\<close>,
  with no upper bound at \<open>now\<close>. Over the consecutive pairs (prev, cur) with
  \<open>cur.energy \<le> prev.energy\<close> and \<open>prev.event \<noteq> "Stop"\<close> it adds up the energy drops
  (\<open>specSum\<close>) and the time differences in milliseconds (\<open>specDuration\<close>). With a sum
  greater than 0 the result is \<^verbatim>\<open>Math.round\<close> of \<open>(sum * 3600) / (duration / 1000)\<close>, each
  operation rounded to a double as the script computes it; otherwise, and with fewer than
  two rows, it is 0. A table of charging rows only gives 0.
\<close>

theorem average_power:
  assumes startTime: "startTime = currentTime - dayCount * msPerDay"
    and rows: "rows = sqlSelectDischarging tbl startTime"
  shows "getAveragePower tzo tbl currentTime dayCount =
      (if greaterThanZero (specSum rows)
       then Math_round (jsDiv (jsMul (specSum rows) (Num 3600)) (jsDiv (specDuration rows) (Num 1000)))
       else Num 0)
    \<and> rows = take 1000 (sort_key time (filter (\<lambda>r. startTime < time r \<and> \<not> charging r) tbl))
    \<and> (\<forall>r \<in> set rows. r \<in> set tbl \<and> \<not> charging r \<and> startTime < time r)
    \<and> length rows \<le> 1000
    \<and> sorted (map time rows)
    \<and> (length rows < 2 \<longrightarrow> getAveragePower tzo tbl currentTime dayCount = Num 0)
    \<and> ((\<forall>r \<in> set tbl. charging r) \<longrightarrow> getAveragePower tzo tbl currentTime dayCount = Num 0)"
proof -
  have result: "getAveragePower tzo tbl currentTime dayCount = specAveragePower rows"
    by (simp add: getAveragePower_spec startTime rows)
  have each: "r \<in> set tbl \<and> \<not> charging r \<and> startTime < time r" if "r \<in> set rows" for r
    using sqlSelectDischarging_set [of r tbl startTime] that by (simp add: rows)
  have none: "getAveragePower tzo tbl currentTime dayCount = Num 0" if "\<forall>r \<in> set tbl. charging r"
    using sqlSelectDischarging_all_charging [OF that, of startTime]
    by (simp add: result rows specAveragePower_short)
  have short: "getAveragePower tzo tbl currentTime dayCount = Num 0" if "length rows < 2"
    using that by (simp add: result specAveragePower_short)
  have formula: "getAveragePower tzo tbl currentTime dayCount =
      (if greaterThanZero (specSum rows)
       then Math_round (jsDiv (jsMul (specSum rows) (Num 3600)) (jsDiv (specDuration rows) (Num 1000)))
       else Num 0)"
    by (simp only: result specAveragePower_def)
  have cap: "rows = take 1000 (sort_key time (filter (\<lambda>r. startTime < time r \<and> \<not> charging r) tbl))"
    by (simp add: rows sqlSelectDischarging_def)
  have len: "length rows \<le> 1000"
    by (simp add: rows sqlSelectDischarging_length)
  have srt: "sorted (map time rows)"
    by (simp add: rows sqlSelectDischarging_sorted)
  show ?thesis
    using formula cap each len srt short none by blast
qed

text \<open>
  A sum of 151 over 7200 seconds gives 75.5, rounded to 76; the table of charging rows
  gives 0.
\<close>

theorem average_power_witness:
  "sqlSelectDischarging exampleDischargeRows (20000000 - 1 * msPerDay) =
     [\<lparr>time = 0, energy = 1000, charging = False, active = True, event = ''''\<rparr>,
      \<lparr>time = 3600000, energy = 900, charging = False, active = True, event = ''''\<rparr>,
      \<lparr>time = 7200000, energy = 950, charging = False, active = True, event = ''Discharging''\<rparr>,
      \<lparr>time = 10800000, energy = 899, charging = False, active = False, event = ''Stop''\<rparr>,
      \<lparr>time = 14400000, energy = 800, charging = False, active = True, event = ''Start''\<rparr>] \<and>
   getAveragePower 0 exampleDischargeRows 20000000 1 = Num 76 \<and>
   list_all charging exampleEventRows \<and>
   sqlSelectDischarging exampleEventRows (5000 - 1 * msPerDay) = [] \<and>
   getAveragePower 0 exampleEventRows 5000 1 = Num 0"
proof -
  let ?rows = "[\<lparr>time = 0, energy = 1000, charging = False, active = True, event = ''''\<rparr>,
      \<lparr>time = 3600000, energy = 900, charging = False, active = True, event = ''''\<rparr>,
      \<lparr>time = 7200000, energy = 950, charging = False, active = True, event = ''Discharging''\<rparr>,
      \<lparr>time = 10800000, energy = 899, charging = False, active = False, event = ''Stop''\<rparr>,
      \<lparr>time = 14400000, energy = 800, charging = False, active = True, event = ''Start''\<rparr>]"
  have rows: "sqlSelectDischarging exampleDischargeRows (20000000 - 1 * msPerDay) = ?rows"
    by (simp add: sqlSelectDischarging_def exampleDischargeRows_def msPerDay_def)
  have sums: "specSum ?rows = Num 151" "specDuration ?rows = Num 7200000"
    by (simp_all add: specSum_def specDuration_def countedPairs_def double_defs)
  have "getAveragePower 0 exampleDischargeRows 20000000 1 =
      (if greaterThanZero (specSum ?rows)
       then Math_round (jsDiv (jsMul (specSum ?rows) (Num 3600)) (jsDiv (specDuration ?rows) (Num 1000)))
       else Num 0)"
    using average_power [OF refl rows [symmetric], of 0] by (rule conjunct1)
  then have power: "getAveragePower 0 exampleDischargeRows 20000000 1 = Num 76"
    by (simp add: sums double_defs)
  have none: "sqlSelectDischarging exampleEventRows (5000 - 1 * msPerDay) = []"
    by (simp add: sqlSelectDischarging_def exampleEventRows_def)
  have zero: "getAveragePower 0 exampleEventRows 5000 1 = Num 0"
    using none by (simp add: getAveragePower_def)
  have facts: "list_all charging exampleEventRows"
    by (simp add: exampleEventRows_def)
  show ?thesis
    using rows power none zero facts by blast
qed

text \<open>
  Claim C8 as stated considers rows within \<open>[now - dayCount, now]\<close> only and rounds the exact
  quotient. Two rows of day 10 are averaged at day 2, where no row is in that window and
  the claim gives 0. A drop of 7 over 8960 ms gives 2812, since the double nearest to 8.96
  is above it and the quotient therefore below 2812.5, where the exact quotient 2812.5
  rounds to 2813.
\<close>

theorem average_power_counterexample:
  "getAveragePower 0 exampleFutureDischarge (2 * msPerDay) 1 = Num 60 \<and>
   map time exampleFutureDischarge = [10 * msPerDay, 10 * msPerDay + 3600000] \<and>
   \<not> 10 * msPerDay \<le> 2 * msPerDay \<and>
   getAveragePower 0 exampleTieRows 20000 1 = Num 2812 \<and>
   \<lfloor>(7 * 3600 / (8960 / 1000) :: rat) + 1 / 2\<rfloor> = 2813"
proof -
  have future: "sqlSelectDischarging exampleFutureDischarge (2 * msPerDay - 1 * msPerDay) =
      exampleFutureDischarge"
    by (simp add: sqlSelectDischarging_def exampleFutureDischarge_def msPerDay_def)
  have "getAveragePower 0 exampleFutureDischarge (2 * msPerDay) 1 =
      specAveragePower exampleFutureDischarge"
    using future by (simp add: getAveragePower_spec)
  also have "\<dots> = Num 60"
    by (simp add: specAveragePower_def specSum_def specDuration_def countedPairs_def
        exampleFutureDischarge_def msPerDay_def double_defs)
  finally have a: "getAveragePower 0 exampleFutureDischarge (2 * msPerDay) 1 = Num 60" .
  have tie: "sqlSelectDischarging exampleTieRows (20000 - 1 * msPerDay) = exampleTieRows"
    by (simp add: sqlSelectDischarging_def exampleTieRows_def msPerDay_def)
  have "getAveragePower 0 exampleTieRows 20000 1 = specAveragePower exampleTieRows"
    using tie by (simp add: getAveragePower_spec)
  also have "\<dots> = Num 2812"
    by (simp add: specAveragePower_def specSum_def specDuration_def countedPairs_def
        exampleTieRows_def double_defs)
  finally have b: "getAveragePower 0 exampleTieRows 20000 1 = Num 2812" .
  have c: "\<lfloor>(7 * 3600 / (8960 / 1000) :: rat) + 1 / 2\<rfloor> = 2813"
    by simp
  have d: "map time exampleFutureDischarge = [10 * msPerDay, 10 * msPerDay + 3600000]"
    "\<not> 10 * msPerDay \<le> 2 * msPerDay"
    by (simp_all add: exampleFutureDischarge_def msPerDay_def)
  show ?thesis
    using a b c d by blast
qed

end
